theory Spec2Isabelle
  imports Main
begin

section \<open>JavaScript values\<close>

text \<open>
  The filter engine receives its input as parsed JSON (the request body) and inspects it
  with run-time checks (\<^verbatim>\<open>"field" in node\<close>, \<^verbatim>\<open>Array.isArray\<close>, \<^verbatim>\<open>typeof\<close>),
  so the model keeps the values untyped, as the code sees them.

  \<^item> \<open>JNum\<close> carries an integer: fractional numbers, \<^verbatim>\<open>NaN\<close> and the infinities
    are outside the model.
  \<^item> \<open>JObj kvs\<close> is a plain object given by its own enumerable properties, in the
    order in which \<^verbatim>\<open>Object.keys\<close> lists them; the keys of \<open>kvs\<close> are pairwise
    distinct. Members inherited from \<^verbatim>\<open>Object.prototype\<close> are not modelled.
  \<^item> Objects and arrays are trees: a filter, a compiled query and a record never share
    a sub-object, so \<^verbatim>\<open>===\<close> on two objects or arrays is false.
\<close>

datatype jsval =
    JUndefined
  | JNull
  | JBool bool
  | JNum int
  | JStr string
  | JArr "jsval list"
  | JObj "(string \<times> jsval) list"

text \<open>The exceptions the code can raise: the two the JavaScript run time throws by
  itself, and \<^verbatim>\<open>new Error(message)\<close>.\<close>

datatype error = TypeError | SyntaxError | Error string

text \<open>\<^verbatim>\<open>!v\<close> is \<open>\<not> truthy v\<close>.\<close>

fun truthy :: "jsval \<Rightarrow> bool" where
  "truthy JUndefined = False"
| "truthy JNull = False"
| "truthy (JBool b) = b"
| "truthy (JNum n) = (n \<noteq> 0)"
| "truthy (JStr s) = (s \<noteq> [])"
| "truthy (JArr xs) = True"
| "truthy (JObj kvs) = True"

text \<open>\<^verbatim>\<open>"field" in v\<close>: a TypeError on every primitive, key presence on an object,
  false on an array (whose properties are its indices and \<^verbatim>\<open>length\<close>).\<close>

fun hasField :: "jsval \<Rightarrow> error + bool" where
  "hasField (JObj kvs) = Inr (''field'' \<in> fst ` set kvs)"
| "hasField (JArr xs) = Inr False"
| "hasField v = Inl TypeError"

text \<open>\<^verbatim>\<open>v.k\<close> for the property names the code reads by name (\<^verbatim>\<open>field\<close>,
  \<^verbatim>\<open>operator\<close>, \<^verbatim>\<open>value\<close>, \<^verbatim>\<open>and\<close>, \<^verbatim>\<open>or\<close>, \<^verbatim>\<open>$and\<close>, \<^verbatim>\<open>$or\<close>,
  \<^verbatim>\<open>$options\<close>) and \<^verbatim>\<open>record[k]\<close> on a record object: the own property of an
  object, \<^verbatim>\<open>undefined\<close> when it is absent and on arrays and primitives. The code never
  reads a property of \<^verbatim>\<open>null\<close> or \<^verbatim>\<open>undefined\<close> this way.\<close>

fun getProp :: "jsval \<Rightarrow> string \<Rightarrow> jsval" where
  "getProp (JObj kvs) k = (case map_of kvs k of Some v \<Rightarrow> v | None \<Rightarrow> JUndefined)"
| "getProp v k = JUndefined"

text \<open>Decimal rendering of an array index or a number inside a template literal.\<close>

definition digit :: "nat \<Rightarrow> char" where
  "digit d = ''0123456789'' ! d"

function showNat :: "nat \<Rightarrow> string" where
  "showNat n = (if n < 10 then [digit n] else showNat (n div 10) @ [digit (n mod 10)])"
  by pat_completeness auto
termination
  by (relation "measure id") auto

declare showNat.simps [simp del]

definition showInt :: "int \<Rightarrow> string" where
  "showInt i = (if i < 0 then CHR ''-'' # showNat (nat (- i)) else showNat (nat i))"

text \<open>\<^verbatim>\<open>xs.join(sep)\<close> on an array of strings.\<close>

fun joinStr :: "string \<Rightarrow> string list \<Rightarrow> string" where
  "joinStr sep [] = []"
| "joinStr sep [x] = x"
| "joinStr sep (x # y # ys) = x @ sep @ joinStr sep (y # ys)"

text \<open>
  \<^verbatim>\<open>String(v)\<close> and \<^verbatim>\<open>`${v}`\<close>. An array is joined with commas, \<^verbatim>\<open>null\<close> and
  \<^verbatim>\<open>undefined\<close> elements giving the empty string. A plain object gives
  \<^verbatim>\<open>[object Object]\<close>, unless it has an own property \<^verbatim>\<open>toString\<close>: a parsed JSON value
  is never callable, the conversion then falls back to \<^verbatim>\<open>valueOf\<close>, which does not
  give a primitive either, and a TypeError is thrown.
\<close>

fun collect :: "(error + 'a) list \<Rightarrow> error + 'a list" where
  "collect [] = Inr []"
| "collect (r # rs) =
     (case r of Inl e \<Rightarrow> Inl e
      | Inr x \<Rightarrow> (case collect rs of Inl e \<Rightarrow> Inl e | Inr xs \<Rightarrow> Inr (x # xs)))"

fun jsString :: "jsval \<Rightarrow> error + string" where
  "jsString JUndefined = Inr ''undefined''"
| "jsString JNull = Inr ''null''"
| "jsString (JBool b) = Inr (if b then ''true'' else ''false'')"
| "jsString (JNum n) = Inr (showInt n)"
| "jsString (JStr s) = Inr s"
| "jsString (JArr xs) =
     (case collect (map (\<lambda>x. if x = JNull \<or> x = JUndefined then Inr [] else jsString x) xs) of
        Inl e \<Rightarrow> Inl e
      | Inr ss \<Rightarrow> Inr (joinStr '','' ss))"
| "jsString (JObj kvs) =
     (if ''toString'' \<in> fst ` set kvs then Inl TypeError else Inr ''[object Object]'')"

text \<open>\<^verbatim>\<open>a === b\<close>, and the comparison \<^verbatim>\<open>Array.prototype.includes\<close> makes
  (which differs from \<^verbatim>\<open>===\<close> only on \<^verbatim>\<open>NaN\<close>): primitives are compared by type
  and value, two objects or arrays are never the same object.\<close>

fun strictEq :: "jsval \<Rightarrow> jsval \<Rightarrow> bool" where
  "strictEq (JArr xs) b = False"
| "strictEq (JObj kvs) b = False"
| "strictEq a b = (a = b)"

text \<open>
  What the code asks of the JavaScript run time and this model does not compute:
  \<^item> \<open>dateInvalid s\<close> is \<^verbatim>\<open>isNaN(Date.parse(s))\<close>;
  \<^item> \<open>relCoerce op a b\<close> is \<^verbatim>\<open>a op b\<close> for \<open>op\<close> one of \<^verbatim>\<open>> < >= <=\<close> when
    the operands are not two numbers (the comparison then converts them, and the
    conversion of an object can throw);
  \<^item> \<open>regexTest pattern flags subject\<close> is
    \<^verbatim>\<open>new RegExp(pattern, flags).test(subject)\<close>, which throws on a malformed pattern.
\<close>

datatype relop = Gt | Lt | Gte | Lte

record runtime =
  dateInvalid :: "string \<Rightarrow> bool"
  relCoerce :: "relop \<Rightarrow> jsval \<Rightarrow> jsval \<Rightarrow> error + bool"
  regexTest :: "jsval \<Rightarrow> jsval \<Rightarrow> jsval \<Rightarrow> error + bool"

section \<open>Schema and validation errors\<close>

datatype FieldType = TString | TNumber | TBoolean | TDate | TEnum | TUuid

text \<open>An operator is kept as the string the request carries: the validator and the
  compilers compare it with string literals, and the schema may list any string.\<close>

record FieldSchema =
  name :: string
  type :: FieldType
  filterable :: bool
  allowedOperators :: "string list option"
  enumValues :: "string list option"

record ValidationError =
  path :: string
  message :: string

fun defaultOperators :: "FieldType \<Rightarrow> string list" where
  "defaultOperators TString =
     [''eq'', ''neq'', ''contains'', ''starts_with'', ''ends_with'', ''in'', ''is_null'', ''is_not_null'']"
| "defaultOperators TNumber =
     [''eq'', ''neq'', ''gt'', ''lt'', ''gte'', ''lte'', ''between'', ''in'', ''is_null'', ''is_not_null'']"
| "defaultOperators TBoolean = [''eq'', ''neq'', ''is_null'', ''is_not_null'']"
| "defaultOperators TDate =
     [''eq'', ''neq'', ''gt'', ''lt'', ''gte'', ''lte'', ''between'', ''is_null'', ''is_not_null'']"
| "defaultOperators TEnum = [''eq'', ''neq'', ''in'', ''is_null'', ''is_not_null'']"
| "defaultOperators TUuid = [''eq'', ''neq'', ''in'', ''is_null'', ''is_not_null'']"

text \<open>\<^verbatim>\<open>new Map(schema.map(s => [s.name, s]))\<close>: of two descriptors with one name the
  later one stays.\<close>

definition schemaMap :: "FieldSchema list \<Rightarrow> (string \<rightharpoonup> FieldSchema)" where
  "schemaMap schema = map_of (rev (map (\<lambda>s. (name s, s)) schema))"

text \<open>\<^verbatim>\<open>schemaMap.get(cond.field)\<close>: the keys of the map are strings, so any other
  value finds nothing.\<close>

fun schemaGet :: "(string \<rightharpoonup> FieldSchema) \<Rightarrow> jsval \<Rightarrow> FieldSchema option" where
  "schemaGet sm (JStr f) = sm f"
| "schemaGet sm v = None"

text \<open>\<^verbatim>\<open>ops.includes(v)\<close> on an array of strings.\<close>

fun includesStr :: "string list \<Rightarrow> jsval \<Rightarrow> bool" where
  "includesStr ops (JStr s) = (s \<in> set ops)"
| "includesStr ops v = False"

section \<open>The validator\<close>

text \<open>The UUID pattern of \<^verbatim>\<open>checkType\<close>,
  \<^verbatim>\<open>/^[0-9a-fA-F-]{8}-[0-9a-fA-F]{4}-[1-5][0-9a-fA-F]{3}-[89ab][0-9a-fA-F]{3}-[0-9a-fA-F]{12}$/\<close>,
  position by position.\<close>

definition isHex :: "char \<Rightarrow> bool" where
  "isHex c = (c \<in> set ''0123456789abcdefABCDEF'')"

definition uuidShaped :: "string \<Rightarrow> bool" where
  "uuidShaped s =
     (length s = 36
      \<and> list_all (\<lambda>c. isHex c \<or> c = CHR ''-'') (take 8 s)
      \<and> s ! 8 = CHR ''-''
      \<and> list_all isHex (take 4 (drop 9 s))
      \<and> s ! 13 = CHR ''-''
      \<and> s ! 14 \<in> set ''12345''
      \<and> list_all isHex (take 3 (drop 15 s))
      \<and> s ! 18 = CHR ''-''
      \<and> s ! 19 \<in> set ''89ab''
      \<and> list_all isHex (take 3 (drop 20 s))
      \<and> s ! 23 = CHR ''-''
      \<and> list_all isHex (drop 24 s))"

definition checkType ::
  "runtime \<Rightarrow> jsval \<Rightarrow> FieldType \<Rightarrow> string \<Rightarrow> FieldSchema \<Rightarrow> error + ValidationError list" where
  "checkType rt v ty p schema =
     (case ty of
        TString \<Rightarrow>
          (case v of JStr s \<Rightarrow> Inr []
           | _ \<Rightarrow> Inr [\<lparr>path = p, message = ''must be a string''\<rparr>])
      | TNumber \<Rightarrow>
          (case v of JNum n \<Rightarrow> Inr []
           | _ \<Rightarrow> Inr [\<lparr>path = p, message = ''must be a number''\<rparr>])
      | TBoolean \<Rightarrow>
          (case v of JBool b \<Rightarrow> Inr []
           | _ \<Rightarrow> Inr [\<lparr>path = p, message = ''must be a boolean''\<rparr>])
      | TDate \<Rightarrow>
          (case jsString v of
             Inl e \<Rightarrow> Inl e
           | Inr s \<Rightarrow>
               if dateInvalid rt s then Inr [\<lparr>path = p, message = ''must be a valid date''\<rparr>]
               else Inr [])
      | TUuid \<Rightarrow>
          (case v of
             JStr s \<Rightarrow>
               if uuidShaped s then Inr []
               else Inr [\<lparr>path = p, message = ''must be a valid UUID''\<rparr>]
           | _ \<Rightarrow> Inr [\<lparr>path = p, message = ''must be a valid UUID''\<rparr>])
      | TEnum \<Rightarrow>
          (case v of
             JStr s \<Rightarrow>
               (case enumValues schema of
                  Some vs \<Rightarrow>
                    if s \<notin> set vs
                    then Inr [\<lparr>path = p, message = ''must be one of: '' @ joinStr '', '' vs\<rparr>]
                    else Inr []
                | None \<Rightarrow> Inr [])
           | _ \<Rightarrow> Inr [\<lparr>path = p, message = ''must be a valid enum value''\<rparr>]))"

text \<open>\<^verbatim>\<open>value.forEach((v, i) => errors.push(...checkType(v, type, `${path}.value[${i}]`, schema)))\<close>,
  from index \<open>i\<close> on.\<close>

fun checkEach ::
  "runtime \<Rightarrow> jsval list \<Rightarrow> nat \<Rightarrow> FieldType \<Rightarrow> string \<Rightarrow> FieldSchema \<Rightarrow> error + ValidationError list" where
  "checkEach rt [] i ty p schema = Inr []"
| "checkEach rt (v # vs) i ty p schema =
     (case checkType rt v ty (p @ ''.value['' @ showNat i @ '']'') schema of
        Inl e \<Rightarrow> Inl e
      | Inr es \<Rightarrow>
          (case checkEach rt vs (Suc i) ty p schema of
             Inl e \<Rightarrow> Inl e
           | Inr es' \<Rightarrow> Inr (es @ es')))"

definition validateValue ::
  "runtime \<Rightarrow> jsval \<Rightarrow> FieldType \<Rightarrow> string \<Rightarrow> FieldSchema \<Rightarrow> error + ValidationError list" where
  \<open>validateValue rt cond ty p schema =
     (let operator = getProp cond ''operator''; v = getProp cond ''value'' in
      if operator = JStr ''is_null'' \<or> operator = JStr ''is_not_null'' then
        (if v \<noteq> JUndefined then
           (case jsString operator of
              Inl e \<Rightarrow> Inl e
            | Inr os \<Rightarrow>
                Inr [\<lparr>path = p, message = ''Operator "'' @ os @ ''" does not take a value''\<rparr>])
         else Inr [])
      else if operator = JStr ''between'' then
        (case v of
           JArr vs \<Rightarrow>
             if length vs \<noteq> 2
             then Inr [\<lparr>path = p, message = ''"between" operator requires exactly 2 values''\<rparr>]
             else checkEach rt vs 0 ty p schema
         | _ \<Rightarrow> Inr [\<lparr>path = p, message = ''"between" operator requires exactly 2 values''\<rparr>])
      else if operator = JStr ''in'' then
        (case v of
           JArr vs \<Rightarrow> checkEach rt vs 0 ty p schema
         | _ \<Rightarrow> Inr [\<lparr>path = p, message = ''"in" operator requires an array''\<rparr>])
      else if v = JUndefined then Inr [\<lparr>path = p, message = ''Field requires a value''\<rparr>]
      else checkType rt v ty (p @ ''.value'') schema)\<close>

definition validateCondition ::
  "runtime \<Rightarrow> (string \<rightharpoonup> FieldSchema) \<Rightarrow> jsval \<Rightarrow> string \<Rightarrow> error + ValidationError list" where
  \<open>validateCondition rt sm cond p =
     (case schemaGet sm (getProp cond ''field'') of
        None \<Rightarrow>
          (case jsString (getProp cond ''field'') of
             Inl e \<Rightarrow> Inl e
           | Inr fs \<Rightarrow>
               Inr [\<lparr>path = p, message = ''Field "'' @ fs @ ''" is not allowed for filtering''\<rparr>])
      | Some schema \<Rightarrow>
          if \<not> filterable schema then
            (case jsString (getProp cond ''field'') of
               Inl e \<Rightarrow> Inl e
             | Inr fs \<Rightarrow>
                 Inr [\<lparr>path = p, message = ''Field "'' @ fs @ ''" is not filterable''\<rparr>])
          else
            (let allowedOps =
                   (case allowedOperators schema of
                      Some ops \<Rightarrow> ops
                    | None \<Rightarrow> defaultOperators (type schema)) in
             case (if \<not> includesStr allowedOps (getProp cond ''operator'') then
                     (case jsString (getProp cond ''operator'') of
                        Inl e \<Rightarrow> Inl e
                      | Inr os \<Rightarrow>
                          (case jsString (getProp cond ''field'') of
                             Inl e \<Rightarrow> Inl e
                           | Inr fs \<Rightarrow>
                               Inr [\<lparr>path = p,
                                     message = ''Operator "'' @ os @ ''" is not allowed for field "''
                                               @ fs @ ''"''\<rparr>]))
                   else Inr []) of
               Inl e \<Rightarrow> Inl e
             | Inr errors \<Rightarrow>
                 (case validateValue rt cond (type schema) p schema of
                    Inl e \<Rightarrow> Inl e
                  | Inr es \<Rightarrow> Inr (errors @ es))))\<close>

text \<open>A child array read off a node is smaller than the node: the measure of every
  recursion over the filter tree.\<close>

lemma size_map_of: "map_of kvs k = Some v \<Longrightarrow> size v < Suc (size_list (size_prod (\<lambda>_. 0) size) kvs)"
  by (induction kvs) (auto split: if_splits)

lemma size_getProp_arr: "getProp node k = JArr cs \<Longrightarrow> size_list size cs < size node"
  by (cases node) (auto split: option.splits dest: size_map_of)

text \<open>
  \<^verbatim>\<open>validateNode\<close> and \<^verbatim>\<open>validateGroup\<close>; \<open>validateEach\<close> is the
  \<^verbatim>\<open>forEach((c, i) => errors.push(...this.validateNode(c, `${path}.and[${i}]`)))\<close>
  loop from index \<open>i\<close> on, \<open>pre\<close> being \<^verbatim>\<open>`${path}.and[`\<close> or
  \<^verbatim>\<open>`${path}.or[`\<close>.
\<close>

function
  validateNode ::
    "runtime \<Rightarrow> (string \<rightharpoonup> FieldSchema) \<Rightarrow> jsval \<Rightarrow> string \<Rightarrow> error + ValidationError list"
and
  validateGroup ::
    "runtime \<Rightarrow> (string \<rightharpoonup> FieldSchema) \<Rightarrow> jsval \<Rightarrow> string \<Rightarrow> error + ValidationError list"
and
  validateEach ::
    "runtime \<Rightarrow> (string \<rightharpoonup> FieldSchema) \<Rightarrow> jsval list \<Rightarrow> string \<Rightarrow> nat \<Rightarrow> error + ValidationError list"
where
  "validateNode rt sm node p =
     (case hasField node of
        Inl e \<Rightarrow> Inl e
      | Inr b \<Rightarrow> if b then validateCondition rt sm node p else validateGroup rt sm node p)"
| \<open>validateGroup rt sm grp p =
     (case (if getProp grp ''and'' \<noteq> JUndefined then
              (case getProp grp ''and'' of
                 JArr cs \<Rightarrow> validateEach rt sm cs (p @ ''.and['') 0
               | _ \<Rightarrow> Inr [\<lparr>path = p, message = ''"and" must be an array''\<rparr>])
            else Inr []) of
        Inl e \<Rightarrow> Inl e
      | Inr errors \<Rightarrow>
          (case (if getProp grp ''or'' \<noteq> JUndefined then
                   (case getProp grp ''or'' of
                      JArr cs \<Rightarrow> validateEach rt sm cs (p @ ''.or['') 0
                    | _ \<Rightarrow> Inr [\<lparr>path = p, message = ''"or" must be an array''\<rparr>])
                 else Inr []) of
             Inl e \<Rightarrow> Inl e
           | Inr es \<Rightarrow> Inr (errors @ es)))\<close>
| "validateEach rt sm [] pre i = Inr []"
| "validateEach rt sm (c # cs) pre i =
     (case validateNode rt sm c (pre @ showNat i @ '']'') of
        Inl e \<Rightarrow> Inl e
      | Inr es \<Rightarrow>
          (case validateEach rt sm cs pre (Suc i) of
             Inl e \<Rightarrow> Inl e
           | Inr es' \<Rightarrow> Inr (es @ es')))"
  by pat_completeness auto
termination
  by (relation "measure (\<lambda>x. case x of
          Inl (rt, sm, node, p) \<Rightarrow> 2 * size node + 1
        | Inr (Inl (rt, sm, grp, p)) \<Rightarrow> 2 * size grp
        | Inr (Inr (rt, sm, cs, pre, i)) \<Rightarrow> 2 * size_list size cs + 1)")
     (auto dest: size_getProp_arr)

text \<open>\<^verbatim>\<open>validate\<close>, on the library built from \<open>schema\<close>.\<close>

definition validate :: "runtime \<Rightarrow> FieldSchema list \<Rightarrow> jsval \<Rightarrow> error + ValidationError list" where
  "validate rt schema flt =
     (if \<not> truthy flt then Inr [] else validateNode rt (schemaMap schema) flt ''<root>'')"

section \<open>The SQL compiler\<close>

record SqlWhere =
  sql :: string
  params :: jsval

text \<open>The object \<^verbatim>\<open>{ sql: `${field}<rest>`, params: ps }\<close>.\<close>

definition fragment :: "jsval \<Rightarrow> string \<Rightarrow> jsval \<Rightarrow> error + SqlWhere" where
  "fragment field rest ps =
     (case jsString field of
        Inl e \<Rightarrow> Inl e
      | Inr f \<Rightarrow> Inr \<lparr>sql = f @ rest, params = ps\<rparr>)"

definition conditionToSql :: "jsval \<Rightarrow> error + SqlWhere" where
  "conditionToSql cond =
     (let field = getProp cond ''field''; operator = getProp cond ''operator'';
          v = getProp cond ''value'' in
      if operator = JStr ''eq'' then fragment field '' = ?'' (JArr [v])
      else if operator = JStr ''neq'' then fragment field '' <> ?'' (JArr [v])
      else if operator = JStr ''gt'' then fragment field '' > ?'' (JArr [v])
      else if operator = JStr ''lt'' then fragment field '' < ?'' (JArr [v])
      else if operator = JStr ''gte'' then fragment field '' >= ?'' (JArr [v])
      else if operator = JStr ''lte'' then fragment field '' <= ?'' (JArr [v])
      else if operator = JStr ''in'' then
        (case v of
           JArr vs \<Rightarrow> fragment field ('' IN ('' @ joinStr '', '' (map (\<lambda>_. ''?'') vs) @ '')'') v
         | _ \<Rightarrow> Inl TypeError)
      else if operator = JStr ''between'' then fragment field '' BETWEEN ? AND ?'' v
      else if operator = JStr ''contains'' then
        (case jsString v of
           Inl e \<Rightarrow> Inl e
         | Inr s \<Rightarrow> fragment field '' LIKE ?'' (JArr [JStr (''%'' @ s @ ''%'')]))
      else if operator = JStr ''starts_with'' then
        (case jsString v of
           Inl e \<Rightarrow> Inl e
         | Inr s \<Rightarrow> fragment field '' LIKE ?'' (JArr [JStr (s @ ''%'')]))
      else if operator = JStr ''ends_with'' then
        (case jsString v of
           Inl e \<Rightarrow> Inl e
         | Inr s \<Rightarrow> fragment field '' LIKE ?'' (JArr [JStr (''%'' @ s)]))
      else if operator = JStr ''is_null'' then fragment field '' IS NULL'' (JArr [])
      else if operator = JStr ''is_not_null'' then fragment field '' IS NOT NULL'' (JArr [])
      else
        (case jsString operator of
           Inl e \<Rightarrow> Inl e
         | Inr os \<Rightarrow> Inl (Error (''Unsupported operator: '' @ os))))"

text \<open>\<^verbatim>\<open>sub.flatMap((s) => s.params)\<close> takes the elements of \<^verbatim>\<open>s.params\<close> when it is
  an array and the value itself otherwise.\<close>

definition flatParams :: "SqlWhere \<Rightarrow> jsval list" where
  "flatParams s = (case params s of JArr ps \<Rightarrow> ps | v \<Rightarrow> [v])"

text \<open>\<^verbatim>\<open>groupToSql\<close>; \<open>sqlEach\<close> is
  \<^verbatim>\<open>.map((c) => "field" in c ? this.conditionToSql(c) : this.groupToSql(c))\<close>, which
  throws on an array that is not one (no callable \<^verbatim>\<open>map\<close>).\<close>

function
  groupToSql :: "jsval \<Rightarrow> error + SqlWhere"
and
  sqlEach :: "jsval list \<Rightarrow> error + SqlWhere list"
where
  "groupToSql grp =
     (case (if truthy (getProp grp ''and'') then
              (case getProp grp ''and'' of
                 JArr cs \<Rightarrow>
                   (case sqlEach cs of
                      Inl e \<Rightarrow> Inl e
                    | Inr sub \<Rightarrow> Inr ([joinStr '' AND '' (map sql sub)], concat (map flatParams sub)))
               | _ \<Rightarrow> Inl TypeError)
            else Inr ([], [])) of
        Inl e \<Rightarrow> Inl e
      | Inr (clauses, ps) \<Rightarrow>
          (case (if truthy (getProp grp ''or'') then
                   (case getProp grp ''or'' of
                      JArr cs \<Rightarrow>
                        (case sqlEach cs of
                           Inl e \<Rightarrow> Inl e
                         | Inr sub \<Rightarrow>
                             Inr (clauses @ [joinStr '' OR '' (map sql sub)],
                                  ps @ concat (map flatParams sub)))
                    | _ \<Rightarrow> Inl TypeError)
                 else Inr (clauses, ps)) of
             Inl e \<Rightarrow> Inl e
           | Inr (clauses', ps') \<Rightarrow>
               Inr \<lparr>sql = ''('' @ joinStr '' AND '' clauses' @ '')'', params = JArr ps'\<rparr>))"
| "sqlEach [] = Inr []"
| "sqlEach (c # cs) =
     (case hasField c of
        Inl e \<Rightarrow> Inl e
      | Inr b \<Rightarrow>
          (case (if b then conditionToSql c else groupToSql c) of
             Inl e \<Rightarrow> Inl e
           | Inr s \<Rightarrow>
               (case sqlEach cs of
                  Inl e \<Rightarrow> Inl e
                | Inr ss \<Rightarrow> Inr (s # ss))))"
  by pat_completeness auto
termination
  by (relation "measure (\<lambda>x. case x of
          Inl grp \<Rightarrow> 2 * size grp
        | Inr cs \<Rightarrow> 2 * size_list size cs + 1)")
     (auto dest: size_getProp_arr)

definition toSqlWhere :: "jsval \<Rightarrow> error + SqlWhere" where
  "toSqlWhere flt =
     (if \<not> truthy flt then Inr \<lparr>sql = ''1=1'', params = JArr []\<rparr>
      else
        (case hasField flt of
           Inl e \<Rightarrow> Inl e
         | Inr b \<Rightarrow> if b then conditionToSql flt else groupToSql flt))"

section \<open>The Mongo compiler\<close>

text \<open>\<^verbatim>\<open>v[i]\<close> for a literal index: a TypeError on \<^verbatim>\<open>null\<close> and
  \<^verbatim>\<open>undefined\<close>, the element of an array, the character of a string, the property
  of that name of an object.\<close>

fun jsIndex :: "jsval \<Rightarrow> nat \<Rightarrow> error + jsval" where
  "jsIndex JUndefined i = Inl TypeError"
| "jsIndex JNull i = Inl TypeError"
| "jsIndex (JArr xs) i = Inr (if i < length xs then xs ! i else JUndefined)"
| "jsIndex (JStr s) i = Inr (if i < length s then JStr [s ! i] else JUndefined)"
| "jsIndex (JObj kvs) i = Inr (getProp (JObj kvs) (showNat i))"
| "jsIndex v i = Inr JUndefined"

text \<open>The object \<^verbatim>\<open>{ [field]: body }\<close>: the computed key is the string of
  \<^verbatim>\<open>field\<close>.\<close>

definition keyed :: "jsval \<Rightarrow> jsval \<Rightarrow> error + jsval" where
  "keyed field body =
     (case jsString field of
        Inl e \<Rightarrow> Inl e
      | Inr f \<Rightarrow> Inr (JObj [(f, body)]))"

definition conditionToMongo :: "jsval \<Rightarrow> error + jsval" where
  "conditionToMongo cond =
     (let field = getProp cond ''field''; operator = getProp cond ''operator'';
          v = getProp cond ''value'' in
      if operator = JStr ''eq'' then keyed field v
      else if operator = JStr ''neq'' then keyed field (JObj [(''$ne'', v)])
      else if operator = JStr ''gt'' then keyed field (JObj [(''$gt'', v)])
      else if operator = JStr ''lt'' then keyed field (JObj [(''$lt'', v)])
      else if operator = JStr ''gte'' then keyed field (JObj [(''$gte'', v)])
      else if operator = JStr ''lte'' then keyed field (JObj [(''$lte'', v)])
      else if operator = JStr ''in'' then keyed field (JObj [(''$in'', v)])
      else if operator = JStr ''between'' then
        (case jsIndex v 0 of
           Inl e \<Rightarrow> Inl e
         | Inr lo \<Rightarrow>
             (case jsIndex v 1 of
                Inl e \<Rightarrow> Inl e
              | Inr hi \<Rightarrow> keyed field (JObj [(''$gte'', lo), (''$lte'', hi)])))
      else if operator = JStr ''contains'' then
        keyed field (JObj [(''$regex'', v), (''$options'', JStr ''i'')])
      else if operator = JStr ''starts_with'' then
        (case jsString v of
           Inl e \<Rightarrow> Inl e
         | Inr s \<Rightarrow> keyed field (JObj [(''$regex'', JStr (''^'' @ s)), (''$options'', JStr ''i'')]))
      else if operator = JStr ''ends_with'' then
        (case jsString v of
           Inl e \<Rightarrow> Inl e
         | Inr s \<Rightarrow> keyed field (JObj [(''$regex'', JStr (s @ ''$'')), (''$options'', JStr ''i'')]))
      else if operator = JStr ''is_null'' then keyed field JNull
      else if operator = JStr ''is_not_null'' then keyed field (JObj [(''$ne'', JNull)])
      else
        (case jsString operator of
           Inl e \<Rightarrow> Inl e
         | Inr os \<Rightarrow> Inl (Error (''Unsupported operator: '' @ os))))"

text \<open>\<^verbatim>\<open>groupToMongo\<close>; \<open>mongoEach\<close> is
  \<^verbatim>\<open>.map((c) => "field" in c ? this.conditionToMongo(c) : this.groupToMongo(c))\<close>.\<close>

function
  groupToMongo :: "jsval \<Rightarrow> error + jsval"
and
  mongoEach :: "jsval list \<Rightarrow> error + jsval list"
where
  "groupToMongo grp =
     (case (if truthy (getProp grp ''and'') then
              (case getProp grp ''and'' of
                 JArr cs \<Rightarrow>
                   (case mongoEach cs of
                      Inl e \<Rightarrow> Inl e
                    | Inr qs \<Rightarrow> Inr [(''$and'', JArr qs)])
               | _ \<Rightarrow> Inl TypeError)
            else Inr []) of
        Inl e \<Rightarrow> Inl e
      | Inr outputs \<Rightarrow>
          (case (if truthy (getProp grp ''or'') then
                   (case getProp grp ''or'' of
                      JArr cs \<Rightarrow>
                        (case mongoEach cs of
                           Inl e \<Rightarrow> Inl e
                         | Inr qs \<Rightarrow> Inr (outputs @ [(''$or'', JArr qs)]))
                    | _ \<Rightarrow> Inl TypeError)
                 else Inr outputs) of
             Inl e \<Rightarrow> Inl e
           | Inr outputs' \<Rightarrow> Inr (JObj outputs')))"
| "mongoEach [] = Inr []"
| "mongoEach (c # cs) =
     (case hasField c of
        Inl e \<Rightarrow> Inl e
      | Inr b \<Rightarrow>
          (case (if b then conditionToMongo c else groupToMongo c) of
             Inl e \<Rightarrow> Inl e
           | Inr q \<Rightarrow>
               (case mongoEach cs of
                  Inl e \<Rightarrow> Inl e
                | Inr qs \<Rightarrow> Inr (q # qs))))"
  by pat_completeness auto
termination
  by (relation "measure (\<lambda>x. case x of
          Inl grp \<Rightarrow> 2 * size grp
        | Inr cs \<Rightarrow> 2 * size_list size cs + 1)")
     (auto dest: size_getProp_arr)

definition toMongoQuery :: "jsval \<Rightarrow> error + jsval" where
  "toMongoQuery flt =
     (if \<not> truthy flt then Inr (JObj [])
      else
        (case hasField flt of
           Inl e \<Rightarrow> Inl e
         | Inr b \<Rightarrow> if b then conditionToMongo flt else groupToMongo flt))"

section \<open>The query evaluator\<close>

text \<open>\<^verbatim>\<open>Object.keys(v)\<close>, also the keys a \<^verbatim>\<open>for (const op in v)\<close> loop visits
  (\<^verbatim>\<open>null\<close> has none): the own keys of an object, the indices of an array or of a
  string, nothing for the other primitives.\<close>

fun ownKeys :: "jsval \<Rightarrow> string list" where
  "ownKeys (JObj kvs) = map fst kvs"
| "ownKeys (JArr xs) = map showNat [0..<length xs]"
| "ownKeys (JStr s) = map showNat [0..<length s]"
| "ownKeys v = []"

text \<open>\<^verbatim>\<open>v[k]\<close> for \<open>k\<close> one of the own keys of \<open>v\<close>.\<close>

fun getOwn :: "jsval \<Rightarrow> string \<Rightarrow> jsval" where
  "getOwn (JArr xs) k =
     (case map_of (zip (map showNat [0..<length xs]) xs) k of Some v \<Rightarrow> v | None \<Rightarrow> JUndefined)"
| "getOwn (JStr s) k =
     (case map_of (zip (map showNat [0..<length s]) s) k of
        Some c \<Rightarrow> JStr [c]
      | None \<Rightarrow> JUndefined)"
| "getOwn v k = getProp v k"

text \<open>\<^verbatim>\<open>typeof v === "object"\<close>, which holds of \<^verbatim>\<open>null\<close> too. No value of the
  model is a \<^verbatim>\<open>Date\<close>.\<close>

fun typeofObject :: "jsval \<Rightarrow> bool" where
  "typeofObject JNull = True"
| "typeofObject (JArr xs) = True"
| "typeofObject (JObj kvs) = True"
| "typeofObject v = False"

text \<open>\<^verbatim>\<open>a > b\<close>, \<^verbatim>\<open>a < b\<close>, \<^verbatim>\<open>a >= b\<close>, \<^verbatim>\<open>a <= b\<close>.\<close>

fun jsRel :: "runtime \<Rightarrow> relop \<Rightarrow> jsval \<Rightarrow> jsval \<Rightarrow> error + bool" where
  "jsRel rt Gt (JNum x) (JNum y) = Inr (x > y)"
| "jsRel rt Lt (JNum x) (JNum y) = Inr (x < y)"
| "jsRel rt Gte (JNum x) (JNum y) = Inr (x \<ge> y)"
| "jsRel rt Lte (JNum x) (JNum y) = Inr (x \<le> y)"
| "jsRel rt op a b = relCoerce rt op a b"

text \<open>\<^verbatim>\<open>s.includes(t)\<close> on strings: \<open>t\<close> occurs in \<open>s\<close>.\<close>

fun containsStr :: "string \<Rightarrow> string \<Rightarrow> bool" where
  "containsStr [] t = (t = [])"
| "containsStr (c # s) t = (take (length t) (c # s) = t \<or> containsStr s t)"

text \<open>\<^verbatim>\<open>xs.includes(v)\<close>: membership in an array, a substring test on a string (with
  \<open>v\<close> converted to a string), and a TypeError on anything else, which has no callable
  \<^verbatim>\<open>includes\<close>.\<close>

fun jsIncludes :: "jsval \<Rightarrow> jsval \<Rightarrow> error + bool" where
  "jsIncludes (JArr xs) v = Inr (list_ex (\<lambda>x. strictEq x v) xs)"
| "jsIncludes (JStr s) v =
     (case jsString v of Inl e \<Rightarrow> Inl e | Inr t \<Rightarrow> Inr (containsStr s t))"
| "jsIncludes xs v = Inl TypeError"

text \<open>The inner loop of \<^verbatim>\<open>matchesQuery\<close>,
  \<^verbatim>\<open>for (const op in condition) { switch (op) { ... } }\<close>, over the keys still to visit.
  \<open>Inr False\<close> is the loop's \<^verbatim>\<open>return false\<close>, \<open>Inr True\<close> its normal end.\<close>

fun matchOps :: "runtime \<Rightarrow> jsval \<Rightarrow> jsval \<Rightarrow> string list \<Rightarrow> error + bool" where
  "matchOps rt v condition [] = Inr True"
| "matchOps rt v condition (op # ops) =
     (if op = ''$ne'' then
        (if strictEq v (getOwn condition op) then Inr False else matchOps rt v condition ops)
      else if op = ''$gt'' then
        (case jsRel rt Gt v (getOwn condition op) of
           Inl e \<Rightarrow> Inl e
         | Inr b \<Rightarrow> if \<not> b then Inr False else matchOps rt v condition ops)
      else if op = ''$lt'' then
        (case jsRel rt Lt v (getOwn condition op) of
           Inl e \<Rightarrow> Inl e
         | Inr b \<Rightarrow> if \<not> b then Inr False else matchOps rt v condition ops)
      else if op = ''$gte'' then
        (case jsRel rt Gte v (getOwn condition op) of
           Inl e \<Rightarrow> Inl e
         | Inr b \<Rightarrow> if \<not> b then Inr False else matchOps rt v condition ops)
      else if op = ''$lte'' then
        (case jsRel rt Lte v (getOwn condition op) of
           Inl e \<Rightarrow> Inl e
         | Inr b \<Rightarrow> if \<not> b then Inr False else matchOps rt v condition ops)
      else if op = ''$in'' then
        (case jsIncludes (getOwn condition op) v of
           Inl e \<Rightarrow> Inl e
         | Inr b \<Rightarrow> if \<not> b then Inr False else matchOps rt v condition ops)
      else if op = ''$regex'' then
        (case regexTest rt (getOwn condition op)
                (if truthy (getProp condition ''$options'') then getProp condition ''$options''
                 else JStr [])
                v of
           Inl e \<Rightarrow> Inl e
         | Inr b \<Rightarrow> if \<not> b then Inr False else matchOps rt v condition ops)
      else Inr False)"

text \<open>The outer loop, \<^verbatim>\<open>for (const field of Object.keys(query)) { ... }\<close>, over the
  keys still to visit; \<open>user\<close> is the record, an object given by its own properties.\<close>

fun matchFields :: "runtime \<Rightarrow> (string \<times> jsval) list \<Rightarrow> jsval \<Rightarrow> string list \<Rightarrow> error + bool" where
  "matchFields rt user query [] = Inr True"
| "matchFields rt user query (field # rest) =
     (let condition = getOwn query field; v = getProp (JObj user) field in
      if \<not> typeofObject condition then
        (if \<not> strictEq v condition then Inr False else matchFields rt user query rest)
      else
        (case matchOps rt v condition (ownKeys condition) of
           Inl e \<Rightarrow> Inl e
         | Inr b \<Rightarrow> if \<not> b then Inr False else matchFields rt user query rest))"

text \<open>\<^verbatim>\<open>matchesQuery\<close>; \<open>everyQuery\<close> and \<open>someQuery\<close> are
  \<^verbatim>\<open>.every((q) => this.matchesQuery(user, q))\<close> and
  \<^verbatim>\<open>.some((q) => this.matchesQuery(user, q))\<close>, which stop at the first sub-query that
  decides the result; on a value that is not an array the call throws.\<close>

function
  matchesQuery :: "runtime \<Rightarrow> (string \<times> jsval) list \<Rightarrow> jsval \<Rightarrow> error + bool"
and
  everyQuery :: "runtime \<Rightarrow> (string \<times> jsval) list \<Rightarrow> jsval list \<Rightarrow> error + bool"
and
  someQuery :: "runtime \<Rightarrow> (string \<times> jsval) list \<Rightarrow> jsval list \<Rightarrow> error + bool"
where
  "matchesQuery rt user query =
     (if \<not> truthy query \<or> length (ownKeys query) = 0 then Inr True
      else if truthy (getProp query ''$and'') then
        (case getProp query ''$and'' of
           JArr qs \<Rightarrow> everyQuery rt user qs
         | _ \<Rightarrow> Inl TypeError)
      else if truthy (getProp query ''$or'') then
        (case getProp query ''$or'' of
           JArr qs \<Rightarrow> someQuery rt user qs
         | _ \<Rightarrow> Inl TypeError)
      else matchFields rt user query (ownKeys query))"
| "everyQuery rt user [] = Inr True"
| "everyQuery rt user (q # qs) =
     (case matchesQuery rt user q of
        Inl e \<Rightarrow> Inl e
      | Inr b \<Rightarrow> if b then everyQuery rt user qs else Inr False)"
| "someQuery rt user [] = Inr False"
| "someQuery rt user (q # qs) =
     (case matchesQuery rt user q of
        Inl e \<Rightarrow> Inl e
      | Inr b \<Rightarrow> if b then Inr True else someQuery rt user qs)"
  by pat_completeness auto
termination
  by (relation "measure (\<lambda>x. case x of
          Inl (rt, user, query) \<Rightarrow> 2 * size query
        | Inr (Inl (rt, user, qs)) \<Rightarrow> 2 * size_list size qs + 1
        | Inr (Inr (rt, user, qs)) \<Rightarrow> 2 * size_list size qs + 1)")
     (auto dest: size_getProp_arr)

section \<open>The builder registry and the repository\<close>

text \<open>A registered builder is its \<^verbatim>\<open>build\<close> method; the registry is the
  \<^verbatim>\<open>Map<string, QueryBuilder>\<close> of the library.\<close>

datatype compiled = MongoQuery jsval | SqlQuery SqlWhere

type_synonym builder = "jsval \<Rightarrow> error + compiled"

definition registerBuilder :: "(string \<rightharpoonup> builder) \<Rightarrow> string \<Rightarrow> builder \<Rightarrow> (string \<rightharpoonup> builder)" where
  "registerBuilder reg nm b = reg(nm \<mapsto> b)"

definition buildQuery :: "(string \<rightharpoonup> builder) \<Rightarrow> string \<Rightarrow> jsval \<Rightarrow> error + compiled" where
  \<open>buildQuery reg nm flt =
     (case reg nm of
        None \<Rightarrow> Inl (Error (''Query builder "'' @ nm @ ''" is not registered''))
      | Some b \<Rightarrow> b flt)\<close>

text \<open>\<^verbatim>\<open>MongoBuilder.build\<close> and \<^verbatim>\<open>SqlBuilder.build\<close>.\<close>

definition mongoBuilder :: builder where
  "mongoBuilder flt = (case toMongoQuery flt of Inl e \<Rightarrow> Inl e | Inr q \<Rightarrow> Inr (MongoQuery q))"

definition sqlBuilder :: builder where
  "sqlBuilder flt = (case toSqlWhere flt of Inl e \<Rightarrow> Inl e | Inr s \<Rightarrow> Inr (SqlQuery s))"

text \<open>The registry after the constructor of \<^verbatim>\<open>UserRepository\<close>.\<close>

definition repoBuilders :: "string \<rightharpoonup> builder" where
  "repoBuilders =
     registerBuilder (registerBuilder Map.empty ''mongo'' mongoBuilder) ''sql'' sqlBuilder"

text \<open>\<^verbatim>\<open>userSchema\<close>.\<close>

definition userSchema :: "FieldSchema list" where
  "userSchema =
     [\<lparr>name = ''id'', type = TUuid, filterable = True, allowedOperators = None, enumValues = None\<rparr>,
      \<lparr>name = ''name'', type = TString, filterable = True, allowedOperators = None, enumValues = None\<rparr>,
      \<lparr>name = ''age'', type = TNumber, filterable = True, allowedOperators = None, enumValues = None\<rparr>,
      \<lparr>name = ''role'', type = TEnum, filterable = True, allowedOperators = None,
        enumValues = Some [''admin'', ''user'', ''manager'']\<rparr>,
      \<lparr>name = ''isActive'', type = TBoolean, filterable = True, allowedOperators = None,
        enumValues = None\<rparr>,
      \<lparr>name = ''createdAt'', type = TDate, filterable = False, allowedOperators = None,
        enumValues = None\<rparr>]"

section \<open>Placeholders and parameters\<close>

text \<open>
  The Conditions of a filter tree in left-to-right, depth-first order: a node that carries
  \<^verbatim>\<open>field\<close> is a Condition, any other node is a Group, whose children under
  \<^verbatim>\<open>and\<close> come before those under \<^verbatim>\<open>or\<close>. This is the order the specification
  names; it is defined on the tree alone, not on what the compiler does.
\<close>

function
  leaves :: "jsval \<Rightarrow> jsval list"
and
  leavesEach :: "jsval list \<Rightarrow> jsval list"
where
  "leaves node =
     (if hasField node = Inr True then [node]
      else (case getProp node ''and'' of JArr cs \<Rightarrow> leavesEach cs | _ \<Rightarrow> [])
         @ (case getProp node ''or'' of JArr cs \<Rightarrow> leavesEach cs | _ \<Rightarrow> []))"
| "leavesEach [] = []"
| "leavesEach (c # cs) = leaves c @ leavesEach cs"
  by pat_completeness auto
termination
  by (relation "measure (\<lambda>x. case x of
          Inl node \<Rightarrow> 2 * size node
        | Inr cs \<Rightarrow> 2 * size_list size cs + 1)")
     (auto dest: size_getProp_arr)

text \<open>The SQL fragment and the parameters the compiler gives one Condition by itself.\<close>

definition condSql :: "jsval \<Rightarrow> string" where
  "condSql c = (case conditionToSql c of Inl e \<Rightarrow> [] | Inr r \<Rightarrow> sql r)"

definition condParams :: "jsval \<Rightarrow> jsval list" where
  "condParams c = (case conditionToSql c of Inl e \<Rightarrow> [] | Inr r \<Rightarrow> flatParams r)"

text \<open>\<open>weave [s0, s1, ..., sn] [f1, ..., fn]\<close> is the text
  \<open>s0 f1 s1 f2 ... fn sn\<close>: fragments in order, with separating text around them.\<close>

fun weave :: "string list \<Rightarrow> string list \<Rightarrow> string" where
  "weave (s # seps) (f # frags) = s @ f @ weave seps frags"
| "weave (s # seps) [] = s"
| "weave [] frags = []"

text \<open>The positional placeholder of the emitted SQL.\<close>

abbreviation placeholder :: char where
  "placeholder \<equiv> CHR ''?''"

text \<open>
  \<open>placed s ps cs\<close>: the text \<open>s\<close> is the fragments of the Conditions \<open>cs\<close>, in
  that order, separated by text without placeholders, and \<open>ps\<close> is the parameters of
  the same Conditions, in the same order.
\<close>

definition placed :: "string \<Rightarrow> jsval list \<Rightarrow> jsval list \<Rightarrow> bool" where
  "placed s ps cs \<longleftrightarrow>
     ps = concat (map condParams cs)
     \<and> (\<exists>seps. length seps = Suc (length cs) \<and> (\<forall>sep \<in> set seps. placeholder \<notin> set sep)
           \<and> s = weave seps (map condSql cs))"

text \<open>\<open>nodeOk c s\<close>: the compiled \<open>s\<close> places the Conditions of the tree \<open>c\<close>, and
  the fragment of each of them has as many placeholders as it has parameters.\<close>

definition nodeOk :: "jsval \<Rightarrow> SqlWhere \<Rightarrow> bool" where
  "nodeOk c s \<longleftrightarrow>
     (\<exists>ps. params s = JArr ps \<and> placed (sql s) ps (leaves c))
     \<and> (\<forall>l \<in> set (leaves c). count_list (condSql l) placeholder = length (condParams l))"

text \<open>The operators the two compilers know.\<close>

definition knownOperators :: "string list" where
  "knownOperators =
     [''eq'', ''neq'', ''gt'', ''lt'', ''gte'', ''lte'', ''in'', ''between'', ''contains'',
      ''starts_with'', ''ends_with'', ''is_null'', ''is_not_null'']"

section \<open>Concrete inputs\<close>

text \<open>An instance of the run-time parameters at which concrete inputs are evaluated: it
  takes every non-empty string for a date, orders only numbers, and matches no regular
  expression.\<close>

definition plainRuntime :: runtime where
  "plainRuntime =
     \<lparr>dateInvalid = (\<lambda>s. s = []),
      relCoerce = (\<lambda>op a b. Inr False),
      regexTest = (\<lambda>pattern flags subject. Inr False)\<rparr>"

text \<open>The Condition \<^verbatim>\<open>{field: "age", operator: "between", value: [20, 30]}\<close>.\<close>

definition ageBetween :: jsval where
  "ageBetween =
     JObj [(''field'', JStr ''age''), (''operator'', JStr ''between''),
           (''value'', JArr [JNum 20, JNum 30])]"

text \<open>The record of Alice, without its creation date.\<close>

definition alice :: "(string \<times> jsval) list" where
  "alice =
     [(''id'', JStr ''1''), (''name'', JStr ''Alice''), (''age'', JNum 35),
      (''role'', JStr ''admin''), (''isActive'', JBool True)]"

text \<open>The filter of the SQL builder test:
  \<^verbatim>\<open>{and: [age > 30, {or: [role = "admin", isActive = true]}]}\<close>.\<close>

definition nestedFilter :: jsval where
  "nestedFilter =
     JObj [(''and'', JArr
       [JObj [(''field'', JStr ''age''), (''operator'', JStr ''gt''), (''value'', JNum 30)],
        JObj [(''or'', JArr
          [JObj [(''field'', JStr ''role''), (''operator'', JStr ''eq''), (''value'', JStr ''admin'')],
           JObj [(''field'', JStr ''isActive''), (''operator'', JStr ''eq''), (''value'', JBool True)]])]])]"

text \<open>The Group \<^verbatim>\<open>{and: [age = 35], or: [role = "manager"]}\<close>, which sets both keys.\<close>

definition ageAndRole :: jsval where
  "ageAndRole =
     JObj [(''and'', JArr [JObj [(''field'', JStr ''age''), (''operator'', JStr ''eq''),
                                 (''value'', JNum 35)]]),
           (''or'', JArr [JObj [(''field'', JStr ''role''), (''operator'', JStr ''eq''),
                                (''value'', JStr ''manager'')]])]"

text \<open>The Condition \<^verbatim>\<open>{field: f, operator: "in", value: []}\<close>.\<close>

definition inEmpty :: "string \<Rightarrow> jsval" where
  "inEmpty f = JObj [(''field'', JStr f), (''operator'', JStr ''in''), (''value'', JArr [])]"

text \<open>A Condition on a field, with an operator and a value.\<close>

definition mkCond :: "string \<Rightarrow> string \<Rightarrow> jsval \<Rightarrow> jsval" where
  "mkCond f op v = JObj [(''field'', JStr f), (''operator'', JStr op), (''value'', v)]"

section \<open>Lemmas\<close>

lemma placed_empty: "placeholder \<notin> set s \<Longrightarrow> placed s [] []"
  unfolding placed_def by (auto intro: exI [of _ "[s]"])

lemma weave_append:
  "length s1 = Suc (length f1) \<Longrightarrow> length s2 = Suc (length f2) \<Longrightarrow>
   weave s1 f1 @ mid @ weave s2 f2
     = weave (butlast s1 @ [last s1 @ mid @ hd s2] @ tl s2) (f1 @ f2)"
proof (induction s1 f1 rule: weave.induct)
  case (1 s seps f frags)
  then show ?case by (cases seps) auto
next
  case (2 s seps)
  then show ?case by (cases s2; cases f2) auto
next
  case (3 frags)
  then show ?case by simp
qed

lemma placed_join:
  assumes "placed s1 p1 c1" and "placed s2 p2 c2" and "placeholder \<notin> set mid"
  shows "placed (s1 @ mid @ s2) (p1 @ p2) (c1 @ c2)"
proof -
  from assms(1) obtain seps1 where a: "p1 = concat (map condParams c1)"
    "length seps1 = Suc (length c1)" "\<forall>sep \<in> set seps1. placeholder \<notin> set sep"
    "s1 = weave seps1 (map condSql c1)"
    unfolding placed_def by blast
  from assms(2) obtain seps2 where b: "p2 = concat (map condParams c2)"
    "length seps2 = Suc (length c2)" "\<forall>sep \<in> set seps2. placeholder \<notin> set sep"
    "s2 = weave seps2 (map condSql c2)"
    unfolding placed_def by blast
  let ?seps = "butlast seps1 @ [last seps1 @ mid @ hd seps2] @ tl seps2"
  have ne: "seps1 \<noteq> []" "seps2 \<noteq> []" using a(2) b(2) by auto
  have len: "length ?seps = Suc (length (c1 @ c2))" using a(2) b(2) by simp
  have w: "s1 @ mid @ s2 = weave ?seps (map condSql (c1 @ c2))"
    using weave_append [of seps1 "map condSql c1" seps2 "map condSql c2" mid] a(2,4) b(2,4)
    by simp
  have "placeholder \<notin> set (last seps1)" using a(3) ne(1) last_in_set by blast
  moreover have "placeholder \<notin> set (hd seps2)" using b(3) ne(2) hd_in_set by blast
  moreover have "\<forall>sep \<in> set (butlast seps1). placeholder \<notin> set sep"
    using a(3) in_set_butlastD by fast
  moreover have "\<forall>sep \<in> set (tl seps2). placeholder \<notin> set sep"
    using b(3) list.set_sel(2) ne(2) by fast
  ultimately have free: "\<forall>sep \<in> set ?seps. placeholder \<notin> set sep"
    using assms(3) by auto
  show ?thesis
    unfolding placed_def using a(1) b(1) len w free by (intro conjI exI [of _ ?seps]) auto
qed

lemma placed_wrap:
  assumes "placed s p c" and "placeholder \<notin> set a" and "placeholder \<notin> set b"
  shows "placed (a @ s @ b) p c"
proof -
  have "placed (a @ [] @ s) ([] @ p) ([] @ c)"
    by (rule placed_join [OF placed_empty [of a] assms(1)]) (use assms in auto)
  then have "placed (a @ s) p c" by simp
  then have "placed ((a @ s) @ [] @ b) (p @ []) (c @ [])"
    by (rule placed_join [OF _ placed_empty [of b]]) (use assms in auto)
  then show ?thesis by simp
qed

lemma count_weave:
  "length seps = Suc (length frags) \<Longrightarrow> \<forall>sep \<in> set seps. x \<notin> set sep \<Longrightarrow>
   count_list (weave seps frags) x = sum_list (map (\<lambda>f. count_list f x) frags)"
  by (induction seps frags rule: weave.induct) (auto simp: count_notin)


lemma count_joinStr:
  "x \<notin> set sep \<Longrightarrow>
   count_list (joinStr sep xs) x = sum_list (map (\<lambda>f. count_list f x) xs)"
  by (induction sep xs rule: joinStr.induct) (auto simp: count_notin)

lemma count_marks: "count_list (joinStr '', '' (map (\<lambda>_. ''?'') vs)) placeholder = length vs"
  by (simp add: count_joinStr comp_def sum_list_triv)

lemma validateCondition_ok:
  assumes "validateCondition rt sm c p = Inr []"
  obtains f schema where "getProp c ''field'' = JStr f" and "sm f = Some schema"
    and "validateValue rt c (type schema) p schema = Inr []"
proof -
  from assms obtain schema where s: "schemaGet sm (getProp c ''field'') = Some schema"
    by (cases "schemaGet sm (getProp c ''field'')")
       (auto simp: validateCondition_def split: sum.splits)
  then obtain f where f: "getProp c ''field'' = JStr f" "sm f = Some schema"
    by (cases "getProp c ''field''") auto
  have "validateValue rt c (type schema) p schema = Inr []"
    using assms s by (auto simp: validateCondition_def Let_def split: sum.splits if_splits)
  with f that show thesis by blast
qed

lemma between_two:
  assumes "validateValue rt c ty p schema = Inr []" and "getProp c ''operator'' = JStr ''between''"
  shows "\<exists>a b. getProp c ''value'' = JArr [a, b]"
proof -
  from assms obtain vs where v: "getProp c ''value'' = JArr vs" "length vs = 2"
    by (cases "getProp c ''value''") (auto simp: validateValue_def split: if_splits)
  then show ?thesis
    by (cases vs; cases "tl vs") auto
qed

lemma condition_marks:
  assumes "validateCondition rt sm c p = Inr []"
    and "\<And>f schema. sm f = Some schema \<Longrightarrow> placeholder \<notin> set f"
    and "conditionToSql c = Inr r"
  shows "\<exists>ps. params r = JArr ps \<and> length ps = count_list (sql r) placeholder"
proof -
  from assms(1) obtain f schema where f: "getProp c ''field'' = JStr f" "sm f = Some schema"
    and v: "validateValue rt c (type schema) p schema = Inr []"
    by (rule validateCondition_ok)
  have q: "count_list f placeholder = 0" using assms(2) f(2) by (simp add: count_notin)
  show ?thesis
  proof (cases "getProp c ''operator'' = JStr ''between''")
    case True
    with v obtain a b where "getProp c ''value'' = JArr [a, b]" using between_two by blast
    with True assms(3) f(1) q show ?thesis
      by (auto simp: conditionToSql_def fragment_def)
  next
    case False
    with assms(3) f(1) q show ?thesis
      by (auto simp: conditionToSql_def fragment_def Let_def count_marks
          split: if_splits sum.splits jsval.splits)
  qed
qed

lemma validateNode_ok:
  assumes "validateNode rt sm c p = Inr []"
  shows "(hasField c = Inr True \<and> validateCondition rt sm c p = Inr [])
       \<or> (hasField c = Inr False \<and> validateGroup rt sm c p = Inr [])"
  using assms by (cases "hasField c") (auto split: if_splits)

lemma validateEach_ok:
  assumes "validateEach rt sm (c # cs) pre i = Inr []"
  shows "validateNode rt sm c (pre @ showNat i @ '']'') = Inr []
       \<and> validateEach rt sm cs pre (Suc i) = Inr []"
  using assms by (auto simp del: validateNode.simps split: sum.splits)

lemma validateGroup_ok:
  assumes "validateGroup rt sm grp p = Inr []"
  shows "(getProp grp ''and'' = JUndefined
          \<or> (\<exists>cs. getProp grp ''and'' = JArr cs \<and> validateEach rt sm cs (p @ ''.and['') 0 = Inr []))
       \<and> (getProp grp ''or'' = JUndefined
          \<or> (\<exists>cs. getProp grp ''or'' = JArr cs \<and> validateEach rt sm cs (p @ ''.or['') 0 = Inr []))"
  using assms
  by (cases "getProp grp ''and''"; cases "getProp grp ''or''")
     (auto split: sum.splits if_splits)

lemma groupToSql_cases:
  assumes "groupToSql grp = Inr r"
    and "getProp grp ''and'' = JUndefined \<or> (\<exists>cs. getProp grp ''and'' = JArr cs)"
    and "getProp grp ''or'' = JUndefined \<or> (\<exists>cs. getProp grp ''or'' = JArr cs)"
  obtains
    (neither) "getProp grp ''and'' = JUndefined" "getProp grp ''or'' = JUndefined"
      "r = \<lparr>sql = ''()'', params = JArr []\<rparr>"
  | (conj) cs sub where "getProp grp ''and'' = JArr cs" "getProp grp ''or'' = JUndefined"
      "sqlEach cs = Inr sub"
      "r = \<lparr>sql = ''('' @ joinStr '' AND '' (map sql sub) @ '')'',
            params = JArr (concat (map flatParams sub))\<rparr>"
  | (disj) cs sub where "getProp grp ''and'' = JUndefined" "getProp grp ''or'' = JArr cs"
      "sqlEach cs = Inr sub"
      "r = \<lparr>sql = ''('' @ joinStr '' OR '' (map sql sub) @ '')'',
            params = JArr (concat (map flatParams sub))\<rparr>"
  | (both) cs sub cs' sub' where "getProp grp ''and'' = JArr cs" "getProp grp ''or'' = JArr cs'"
      "sqlEach cs = Inr sub" "sqlEach cs' = Inr sub'"
      "r = \<lparr>sql = ''('' @ (joinStr '' AND '' (map sql sub) @ '' AND '' @ joinStr '' OR '' (map sql sub'))
                   @ '')'',
            params = JArr (concat (map flatParams sub) @ concat (map flatParams sub'))\<rparr>"
  using assms by (auto split: sum.splits)

lemma join_ok:
  assumes "list_all2 nodeOk cs sub" and "placeholder \<notin> set sep"
  shows "placed (joinStr sep (map sql sub)) (concat (map flatParams sub)) (leavesEach cs)
       \<and> (\<forall>l \<in> set (leavesEach cs). count_list (condSql l) placeholder = length (condParams l))"
  using assms
proof (induction cs sub rule: list_all2_induct)
  case Nil
  then show ?case by (simp add: placed_empty)
next
  case (Cons c cs s sub)
  from Cons.hyps(1) obtain ps where ps: "params s = JArr ps" "placed (sql s) ps (leaves c)"
    and g: "\<forall>l \<in> set (leaves c). count_list (condSql l) placeholder = length (condParams l)"
    unfolding nodeOk_def by blast
  have fp: "flatParams s = ps" using ps(1) by (simp add: flatParams_def)
  from Cons.IH [OF Cons.prems] have ih:
    "placed (joinStr sep (map sql sub)) (concat (map flatParams sub)) (leavesEach cs)"
    "\<forall>l \<in> set (leavesEach cs). count_list (condSql l) placeholder = length (condParams l)"
    by blast+
  have "placed (joinStr sep (map sql (s # sub))) (ps @ concat (map flatParams sub))
          (leaves c @ leavesEach cs)"
  proof (cases sub)
    case Nil
    then have "cs = []" using Cons.hyps(2) by simp
    with Nil ps(2) show ?thesis by simp
  next
    case (Cons y ys)
    then have "joinStr sep (map sql (s # sub)) = sql s @ sep @ joinStr sep (map sql sub)"
      by simp
    then show ?thesis
      using placed_join [OF ps(2) ih(1) Cons.prems] by simp
  qed
  then show ?case using fp g ih(2) by auto
qed

lemma condition_ok:
  assumes "validateCondition rt sm c p = Inr []"
    and "\<And>f schema. sm f = Some schema \<Longrightarrow> placeholder \<notin> set f"
    and "conditionToSql c = Inr r" and "hasField c = Inr True"
  shows "nodeOk c r"
proof -
  from condition_marks [OF assms(1) _ assms(3)] assms(2) obtain ps where
    ps: "params r = JArr ps" "length ps = count_list (sql r) placeholder" by blast
  have l: "leaves c = [c]" using assms(4) by simp
  have cs: "condSql c = sql r" "condParams c = ps"
    using assms(3) ps(1) by (simp_all add: condSql_def condParams_def flatParams_def)
  have "sql r = weave [[], []] [sql r]" by simp
  then have "placed (sql r) ps [c]"
    unfolding placed_def using cs by (intro conjI exI [of _ "[[], []]"]) auto
  then show ?thesis
    unfolding nodeOk_def using ps l cs by auto
qed


lemma group_ok:
  assumes "hasField grp = Inr False"
    and "groupToSql grp = Inr r"
    and a: "getProp grp ''and'' = JUndefined
          \<or> (\<exists>cs. getProp grp ''and'' = JArr cs \<and> (\<forall>sub. sqlEach cs = Inr sub \<longrightarrow> list_all2 nodeOk cs sub))"
    and b: "getProp grp ''or'' = JUndefined
          \<or> (\<exists>cs. getProp grp ''or'' = JArr cs \<and> (\<forall>sub. sqlEach cs = Inr sub \<longrightarrow> list_all2 nodeOk cs sub))"
  shows "nodeOk grp r"
proof -
  have a': "getProp grp ''and'' = JUndefined \<or> (\<exists>cs. getProp grp ''and'' = JArr cs)"
    using a by blast
  have b': "getProp grp ''or'' = JUndefined \<or> (\<exists>cs. getProp grp ''or'' = JArr cs)"
    using b by blast
  have nf: "hasField grp \<noteq> Inr True" using assms(1) by simp
  from assms(2) a' b' show ?thesis
  proof (cases rule: groupToSql_cases)
    case neither
    then show ?thesis
      using nf by (simp add: nodeOk_def placed_empty)
  next
    case (conj cs sub)
    with a have "list_all2 nodeOk cs sub" by auto
    from join_ok [OF this, of "'' AND ''"] have
      j: "placed (joinStr '' AND '' (map sql sub)) (concat (map flatParams sub)) (leavesEach cs)"
      and g: "\<forall>l \<in> set (leavesEach cs). count_list (condSql l) placeholder = length (condParams l)"
      by auto
    have "placed (''('' @ joinStr '' AND '' (map sql sub) @ '')'') (concat (map flatParams sub))
            (leavesEach cs)"
      by (rule placed_wrap [OF j]) auto
    then show ?thesis
      using nf conj g by (simp add: nodeOk_def)
  next
    case (disj cs sub)
    with b have "list_all2 nodeOk cs sub" by auto
    from join_ok [OF this, of "'' OR ''"] have
      j: "placed (joinStr '' OR '' (map sql sub)) (concat (map flatParams sub)) (leavesEach cs)"
      and g: "\<forall>l \<in> set (leavesEach cs). count_list (condSql l) placeholder = length (condParams l)"
      by auto
    have "placed (''('' @ joinStr '' OR '' (map sql sub) @ '')'') (concat (map flatParams sub))
            (leavesEach cs)"
      by (rule placed_wrap [OF j]) auto
    then show ?thesis
      using nf disj g by (simp add: nodeOk_def)
  next
    case (both cs sub cs' sub')
    with a b have l: "list_all2 nodeOk cs sub" "list_all2 nodeOk cs' sub'" by auto
    from join_ok [OF l(1), of "'' AND ''"] have
      j: "placed (joinStr '' AND '' (map sql sub)) (concat (map flatParams sub)) (leavesEach cs)"
      and g: "\<forall>l \<in> set (leavesEach cs). count_list (condSql l) placeholder = length (condParams l)"
      by auto
    from join_ok [OF l(2), of "'' OR ''"] have
      j': "placed (joinStr '' OR '' (map sql sub')) (concat (map flatParams sub')) (leavesEach cs')"
      and g': "\<forall>l \<in> set (leavesEach cs'). count_list (condSql l) placeholder = length (condParams l)"
      by auto
    have "placed (joinStr '' AND '' (map sql sub) @ '' AND '' @ joinStr '' OR '' (map sql sub'))
            (concat (map flatParams sub) @ concat (map flatParams sub'))
            (leavesEach cs @ leavesEach cs')"
      by (rule placed_join [OF j j']) simp
    then have "placed (''('' @ (joinStr '' AND '' (map sql sub) @ '' AND ''
                 @ joinStr '' OR '' (map sql sub')) @ '')'')
            (concat (map flatParams sub) @ concat (map flatParams sub'))
            (leavesEach cs @ leavesEach cs')"
      by (rule placed_wrap) auto
    then show ?thesis
      using nf both g g' by (auto simp: nodeOk_def)
  qed
qed

lemma tree_ok:
  assumes q: "\<And>f schema. sm f = Some schema \<Longrightarrow> placeholder \<notin> set f"
  shows "hasField grp = Inr False \<longrightarrow>
           (\<forall>p r. validateGroup rt sm grp p = Inr [] \<longrightarrow> groupToSql grp = Inr r \<longrightarrow> nodeOk grp r)"
    and "\<forall>pre i sub. validateEach rt sm cs pre i = Inr [] \<longrightarrow> sqlEach cs = Inr sub \<longrightarrow>
           list_all2 nodeOk cs sub"
proof (induction grp and cs rule: groupToSql_sqlEach.induct)
  case (1 grp)
  show ?case
  proof (intro impI allI)
    fix p r
    assume h: "hasField grp = Inr False" and v: "validateGroup rt sm grp p = Inr []"
      and c: "groupToSql grp = Inr r"
    note vg = validateGroup_ok [OF v]
    have a: "getProp grp ''and'' = JUndefined
          \<or> (\<exists>cs. getProp grp ''and'' = JArr cs \<and> (\<forall>sub. sqlEach cs = Inr sub \<longrightarrow> list_all2 nodeOk cs sub))"
    proof (cases "getProp grp ''and'' = JUndefined")
      case False
      with vg obtain cs where cs: "getProp grp ''and'' = JArr cs"
        "validateEach rt sm cs (p @ ''.and['') 0 = Inr []" by blast
      have "\<forall>sub. sqlEach cs = Inr sub \<longrightarrow> list_all2 nodeOk cs sub"
        using "1.IH"(1) [of cs] cs by auto
      with cs(1) show ?thesis by blast
    qed simp
    have b: "getProp grp ''or'' = JUndefined
          \<or> (\<exists>cs. getProp grp ''or'' = JArr cs \<and> (\<forall>sub. sqlEach cs = Inr sub \<longrightarrow> list_all2 nodeOk cs sub))"
    proof (cases "getProp grp ''or'' = JUndefined")
      case False
      with vg obtain cs where cs: "getProp grp ''or'' = JArr cs"
        "validateEach rt sm cs (p @ ''.or['') 0 = Inr []" by blast
      have "\<exists>bb. (if truthy (getProp grp ''and'')
               then case getProp grp ''and'' of
                    JArr cs \<Rightarrow>
                      (case sqlEach cs of Inl x \<Rightarrow> Inl x
                       | Inr sub \<Rightarrow>
                          Inr ([joinStr '' AND '' (map sql sub)],
                               concat (map flatParams sub)))
                    | _ \<Rightarrow> Inl TypeError
               else Inr ([], [])) = Inr bb"
        using c by (subst (asm) groupToSql.simps) (auto split: sum.splits)
      then obtain bb where bb: "(if truthy (getProp grp ''and'')
               then case getProp grp ''and'' of
                    JArr cs \<Rightarrow>
                      (case sqlEach cs of Inl x \<Rightarrow> Inl x
                       | Inr sub \<Rightarrow>
                          Inr ([joinStr '' AND '' (map sql sub)],
                               concat (map flatParams sub)))
                    | _ \<Rightarrow> Inl TypeError
               else Inr ([], [])) = Inr bb" by blast
      have "\<forall>sub. sqlEach cs = Inr sub \<longrightarrow> list_all2 nodeOk cs sub"
        using "1.IH"(2) [OF bb, of "fst bb" "snd bb" cs] cs by auto
      with cs(1) show ?thesis by blast
    qed simp
    show "nodeOk grp r" by (rule group_ok [OF h c a b])
  qed
next
  case 2
  show ?case by simp
next
  case (3 c cs)
  show ?case
  proof (intro impI allI)
    fix pre i sub
    assume v: "validateEach rt sm (c # cs) pre i = Inr []" and s: "sqlEach (c # cs) = Inr sub"
    from validateEach_ok [OF v] have vn: "validateNode rt sm c (pre @ showNat i @ '']'') = Inr []"
      and ve: "validateEach rt sm cs pre (Suc i) = Inr []" by auto
    from s obtain b x xs where hb: "hasField c = Inr b"
      and x: "(if b then conditionToSql c else groupToSql c) = Inr x"
      and xs: "sqlEach cs = Inr xs" and sub: "sub = x # xs"
      by (auto simp del: groupToSql.simps split: sum.splits)
    have rest: "list_all2 nodeOk cs xs"
      using "3.IH"(2) [OF hb x] ve xs by blast
    have "nodeOk c x"
    proof (cases b)
      case True
      with validateNode_ok [OF vn] hb have "validateCondition rt sm c (pre @ showNat i @ '']'') = Inr []"
        by auto
      then show ?thesis
        using condition_ok [of rt sm c _ x] q True x hb by auto
    next
      case False
      with validateNode_ok [OF vn] hb have "validateGroup rt sm c (pre @ showNat i @ '']'') = Inr []"
        by auto
      then show ?thesis
        using "3.IH"(1) [OF hb False] False x hb by auto
    qed
    with rest sub show "list_all2 nodeOk (c # cs) sub" by simp
  qed
qed

lemma schemaMap_name: "schemaMap schema f = Some fs \<Longrightarrow> fs \<in> set schema \<and> name fs = f"
  unfolding schemaMap_def by (auto dest!: map_of_SomeD)

lemma falsy_leaves: "\<not> truthy t \<Longrightarrow> leaves t = []"
  by (cases t) auto

text \<open>The SQL compiler returns on every filter that passes validation, when the schema
  allows no operator beyond the thirteen the compiler knows.\<close>

lemma defaultOperators_known: "set (defaultOperators ty) \<subseteq> set knownOperators"
  by (cases ty) (auto simp: knownOperators_def)

lemma checkType_string:
  assumes "checkType rt v ty p schema = Inr []"
  shows "\<exists>s. jsString v = Inr s"
proof (cases "jsString v")
  case (Inl e)
  with assms show ?thesis
    by (cases ty; cases v) (auto simp: checkType_def)
next
  case (Inr s)
  then show ?thesis by blast
qed

lemma condition_compiles:
  assumes "validateCondition rt sm c p = Inr []"
    and "\<And>f schema ops. sm f = Some schema \<Longrightarrow> allowedOperators schema = Some ops \<Longrightarrow>
           set ops \<subseteq> set knownOperators"
  shows "\<exists>r. conditionToSql c = Inr r"
proof -
  from assms(1) obtain f schema where f: "getProp c ''field'' = JStr f" "sm f = Some schema"
    and v: "validateValue rt c (type schema) p schema = Inr []"
    by (rule validateCondition_ok)
  have inc: "includesStr (case allowedOperators schema of Some ops \<Rightarrow> ops
                          | None \<Rightarrow> defaultOperators (type schema)) (getProp c ''operator'')"
    using assms(1) f
    by (auto simp: validateCondition_def Let_def split: sum.splits if_splits)
  have "set (case allowedOperators schema of Some ops \<Rightarrow> ops
             | None \<Rightarrow> defaultOperators (type schema)) \<subseteq> set knownOperators"
    using assms(2) [OF f(2)] defaultOperators_known by (cases "allowedOperators schema") auto
  with inc obtain op where op: "getProp c ''operator'' = JStr op" "op \<in> set knownOperators"
    by (cases "getProp c ''operator''") auto
  have str: "\<exists>s. jsString (getProp c ''value'') = Inr s"
    if "op = ''contains'' \<or> op = ''starts_with'' \<or> op = ''ends_with''"
  proof -
    have "checkType rt (getProp c ''value'') (type schema) (p @ ''.value'') schema = Inr []"
      using v op(1) that by (auto simp: validateValue_def Let_def split: if_splits)
    then show ?thesis by (rule checkType_string)
  qed
  have arr: "\<exists>vs. getProp c ''value'' = JArr vs" if "op = ''in''"
    using v op(1) that
    by (cases "getProp c ''value''") (auto simp: validateValue_def split: if_splits)
  have "op = ''eq'' \<or> op = ''neq'' \<or> op = ''gt'' \<or> op = ''lt'' \<or> op = ''gte'' \<or> op = ''lte''
       \<or> op = ''in'' \<or> op = ''between'' \<or> op = ''contains'' \<or> op = ''starts_with''
       \<or> op = ''ends_with'' \<or> op = ''is_null'' \<or> op = ''is_not_null''"
    using op(2) by (simp add: knownOperators_def)
  then show ?thesis
    using arr str op(1) f(1)
    by (elim disjE) (auto simp: conditionToSql_def fragment_def)
qed

lemma tree_compiles:
  assumes k: "\<And>f schema ops. sm f = Some schema \<Longrightarrow> allowedOperators schema = Some ops \<Longrightarrow>
           set ops \<subseteq> set knownOperators"
  shows "hasField grp = Inr False \<longrightarrow>
           (\<forall>p. validateGroup rt sm grp p = Inr [] \<longrightarrow> (\<exists>r. groupToSql grp = Inr r))"
    and "\<forall>pre i. validateEach rt sm cs pre i = Inr [] \<longrightarrow> (\<exists>sub. sqlEach cs = Inr sub)"
proof (induction grp and cs rule: groupToSql_sqlEach.induct)
  case (1 grp)
  show ?case
  proof (intro impI allI)
    fix p
    assume h: "hasField grp = Inr False" and v: "validateGroup rt sm grp p = Inr []"
    note vg = validateGroup_ok [OF v]
    have a: "\<exists>b. (if truthy (getProp grp ''and'')
               then case getProp grp ''and'' of
                    JArr cs \<Rightarrow>
                      (case sqlEach cs of Inl x \<Rightarrow> Inl x
                       | Inr sub \<Rightarrow>
                          Inr ([joinStr '' AND '' (map sql sub)],
                               concat (map flatParams sub)))
                    | _ \<Rightarrow> Inl TypeError
               else Inr ([], [])) = Inr b"
    proof (cases "getProp grp ''and'' = JUndefined")
      case False
      with vg obtain cs where cs: "getProp grp ''and'' = JArr cs"
        "validateEach rt sm cs (p @ ''.and['') 0 = Inr []" by blast
      then obtain sub where "sqlEach cs = Inr sub"
        using "1.IH"(1) [of cs] by auto
      with cs(1) show ?thesis by simp
    qed simp
    then obtain b where b: "(if truthy (getProp grp ''and'')
               then case getProp grp ''and'' of
                    JArr cs \<Rightarrow>
                      (case sqlEach cs of Inl x \<Rightarrow> Inl x
                       | Inr sub \<Rightarrow>
                          Inr ([joinStr '' AND '' (map sql sub)],
                               concat (map flatParams sub)))
                    | _ \<Rightarrow> Inl TypeError
               else Inr ([], [])) = Inr b" by blast
    have o: "getProp grp ''or'' = JUndefined
           \<or> (\<exists>cs sub. getProp grp ''or'' = JArr cs \<and> sqlEach cs = Inr sub)"
    proof (cases "getProp grp ''or'' = JUndefined")
      case False
      with vg obtain cs where cs: "getProp grp ''or'' = JArr cs"
        "validateEach rt sm cs (p @ ''.or['') 0 = Inr []" by blast
      then obtain sub where "sqlEach cs = Inr sub"
        using "1.IH"(2) [OF b, of "fst b" "snd b" cs] by auto
      with cs(1) show ?thesis by blast
    qed simp
    show "\<exists>r. groupToSql grp = Inr r"
      using b o by (subst groupToSql.simps) (auto split: prod.splits)
  qed
next
  case 2
  show ?case by simp
next
  case (3 c cs)
  show ?case
  proof (intro impI allI)
    fix pre i
    assume v: "validateEach rt sm (c # cs) pre i = Inr []"
    from validateEach_ok [OF v] have vn: "validateNode rt sm c (pre @ showNat i @ '']'') = Inr []"
      and ve: "validateEach rt sm cs pre (Suc i) = Inr []" by auto
    from validateNode_ok [OF vn] have "\<exists>b x. hasField c = Inr b
        \<and> (if b then conditionToSql c else groupToSql c) = Inr x"
    proof
      assume "hasField c = Inr True \<and> validateCondition rt sm c (pre @ showNat i @ '']'') = Inr []"
      with condition_compiles [of rt sm c] k show ?thesis by auto
    next
      assume g: "hasField c = Inr False \<and> validateGroup rt sm c (pre @ showNat i @ '']'') = Inr []"
      with "3.IH"(1) [of False] show ?thesis by auto
    qed
    then obtain b x where hb: "hasField c = Inr b"
      and x: "(if b then conditionToSql c else groupToSql c) = Inr x" by blast
    from "3.IH"(2) [OF hb x] ve obtain xs where "sqlEach cs = Inr xs" by blast
    with hb x show "\<exists>sub. sqlEach (c # cs) = Inr sub"
      by (auto simp del: groupToSql.simps)
  qed
qed

lemma validated_filter_compiles:
  assumes "validate rt schema t = Inr []"
    and "\<forall>fs \<in> set schema. \<forall>ops. allowedOperators fs = Some ops \<longrightarrow> set ops \<subseteq> set knownOperators"
  shows "\<exists>r. toSqlWhere t = Inr r"
proof (cases "truthy t")
  case False
  then show ?thesis by (simp add: toSqlWhere_def)
next
  case True
  have k: "\<And>f fs ops. schemaMap schema f = Some fs \<Longrightarrow> allowedOperators fs = Some ops \<Longrightarrow>
           set ops \<subseteq> set knownOperators"
    using assms(2) schemaMap_name by blast
  from True assms(1) have vn: "validateNode rt (schemaMap schema) t ''<root>'' = Inr []"
    by (simp add: validate_def)
  from validateNode_ok [OF vn] show ?thesis
  proof
    assume "hasField t = Inr True \<and> validateCondition rt (schemaMap schema) t ''<root>'' = Inr []"
    with condition_compiles [of rt "schemaMap schema" t] k True show ?thesis
      by (auto simp: toSqlWhere_def simp del: groupToSql.simps)
  next
    assume "hasField t = Inr False \<and> validateGroup rt (schemaMap schema) t ''<root>'' = Inr []"
    with tree_compiles(1) [of "schemaMap schema" t rt] k True show ?thesis
      by (auto simp: toSqlWhere_def simp del: groupToSql.simps)
  qed
qed

text \<open>The key \<^verbatim>\<open>$options\<close>, which the compiler puts next to \<^verbatim>\<open>$regex\<close>, has no
  case of its own in the evaluator's switch: the compiled \<^verbatim>\<open>contains\<close>,
  \<^verbatim>\<open>starts_with\<close> and \<^verbatim>\<open>ends_with\<close> queries match no record.\<close>

lemma regex_query_never_matches:
  assumes "f \<noteq> ''$and''" and "f \<noteq> ''$or''"
  shows "matchesQuery rt user (JObj [(f, JObj [(''$regex'', pat), (''$options'', JStr ''i'')])])
           \<noteq> Inr True"
proof -
  have "matchOps rt v (JObj [(''$regex'', pat), (''$options'', JStr ''i'')]) [''$regex'', ''$options'']
          \<noteq> Inr True" for v
    by (simp split: sum.splits)
  then show ?thesis
    using assms by (simp add: Let_def split: sum.splits)
qed

section \<open>Properties\<close>

text \<open>
  C7. An absent filter (\<^verbatim>\<open>null\<close> or \<^verbatim>\<open>undefined\<close>) validates with an empty error
  list, the Mongo compiler turns it into the empty object, the evaluator returns true for
  every record against the empty object, and the SQL compiler returns exactly
  \<^verbatim>\<open>{sql: "1=1", params: []}\<close>.
\<close>

theorem absent_filter:
  "validate rt schema JNull = Inr [] \<and> validate rt schema JUndefined = Inr []
   \<and> toMongoQuery JNull = Inr (JObj []) \<and> toMongoQuery JUndefined = Inr (JObj [])
   \<and> matchesQuery rt user (JObj []) = Inr True
   \<and> toSqlWhere JNull = Inr \<lparr>sql = ''1=1'', params = JArr []\<rparr>
   \<and> toSqlWhere JUndefined = Inr \<lparr>sql = ''1=1'', params = JArr []\<rparr>"
  by (simp add: validate_def toMongoQuery_def toSqlWhere_def)

theorem absent_filter_witness:
  "validate plainRuntime userSchema JNull = Inr []
   \<and> toMongoQuery JNull = Inr (JObj [])
   \<and> matchesQuery plainRuntime alice (JObj []) = Inr True
   \<and> toSqlWhere JNull = Inr \<lparr>sql = ''1=1'', params = JArr []\<rparr>"
  using absent_filter [of plainRuntime userSchema alice]
  by simp

text \<open>
  C8. Under the user schema, the Condition
  \<^verbatim>\<open>{field: "age", operator: "between", value: [20, 30]}\<close> validates with an empty
  error list, and the SQL compiler, called directly or through the registry, gives exactly
  \<^verbatim>\<open>{sql: "age BETWEEN ? AND ?", params: [20, 30]}\<close>.
\<close>

theorem between_example:
  "validate rt userSchema ageBetween = Inr []
   \<and> toSqlWhere ageBetween
       = Inr \<lparr>sql = ''age BETWEEN ? AND ?'', params = JArr [JNum 20, JNum 30]\<rparr>
   \<and> buildQuery repoBuilders ''sql'' ageBetween
       = Inr (SqlQuery \<lparr>sql = ''age BETWEEN ? AND ?'', params = JArr [JNum 20, JNum 30]\<rparr>)"
  by (simp add: validate_def ageBetween_def userSchema_def schemaMap_def validateCondition_def
      validateValue_def checkType_def toSqlWhere_def conditionToSql_def fragment_def
      buildQuery_def repoBuilders_def registerBuilder_def sqlBuilder_def)

theorem between_example_witness:
  "validate plainRuntime userSchema ageBetween = Inr []
   \<and> toSqlWhere ageBetween
       = Inr \<lparr>sql = ''age BETWEEN ? AND ?'', params = JArr [JNum 20, JNum 30]\<rparr>"
  using between_example [of plainRuntime]
  by simp

text \<open>
  C4. The claim is that \<^verbatim>\<open>validate\<close> never throws, whatever the elements of an
  \<^verbatim>\<open>and\<close>/\<^verbatim>\<open>or\<close> array are. On the Group \<^verbatim>\<open>{and: [null]}\<close> the code
  does throw: \<^verbatim>\<open>validateNode\<close> evaluates \<^verbatim>\<open>"field" in null\<close>, a TypeError,
  under every schema.
\<close>

theorem validate_null_child_throws:
  "validate rt schema (JObj [(''and'', JArr [JNull])]) = Inl TypeError"
  by (simp add: validate_def)

theorem validate_null_child_throws_witness:
  "validate plainRuntime userSchema (JObj [(''and'', JArr [JNull])]) = Inl TypeError"
  using validate_null_child_throws [of plainRuntime userSchema]
  by simp

text \<open>
  C1, as amended. For every filter tree that passes \<^verbatim>\<open>validate\<close> under a schema none
  of whose field names contains \<^verbatim>\<open>?\<close>, whatever the nesting of its Groups: when the
  SQL compiler returns \<open>r\<close>, the parameters of \<open>r\<close> are an array with exactly one
  entry per placeholder of the SQL text; the text is the fragments of the tree's
  Conditions, taken left to right and depth first, separated by text without
  placeholders; the parameters are the parameters of the same Conditions in the same
  order; and each fragment has as many placeholders as its Condition has parameters.
  The compiler does return on such a tree when the schema allows only operators it knows
  (\<open>validated_filter_compiles\<close>).
\<close>

theorem sql_params_follow_placeholders:
  assumes "validate rt schema t = Inr []"
    and "\<forall>fs \<in> set schema. CHR ''?'' \<notin> set (name fs)"
    and "toSqlWhere t = Inr r"
  shows "\<exists>ps seps. params r = JArr ps
           \<and> length ps = count_list (sql r) CHR ''?''
           \<and> ps = concat (map condParams (leaves t))
           \<and> sql r = weave seps (map condSql (leaves t))
           \<and> length seps = Suc (length (leaves t))
           \<and> (\<forall>sep \<in> set seps. CHR ''?'' \<notin> set sep)
           \<and> (\<forall>c \<in> set (leaves t). count_list (condSql c) CHR ''?'' = length (condParams c))"
proof -
  have q: "\<And>f fs. schemaMap schema f = Some fs \<Longrightarrow> CHR ''?'' \<notin> set f"
    using assms(2) schemaMap_name by blast
  have ok: "nodeOk t r"
  proof (cases "truthy t")
    case False
    with assms(3) have "r = \<lparr>sql = ''1=1'', params = JArr []\<rparr>"
      by (simp add: toSqlWhere_def)
    with False show ?thesis
      by (simp add: nodeOk_def falsy_leaves placed_empty del: leaves.simps)
  next
    case True
    with assms(1) have vn: "validateNode rt (schemaMap schema) t ''<root>'' = Inr []"
      by (simp add: validate_def)
    from True assms(3) obtain b where hb: "hasField t = Inr b"
      and x: "(if b then conditionToSql t else groupToSql t) = Inr r"
      by (auto simp: toSqlWhere_def simp del: groupToSql.simps split: sum.splits)
    show ?thesis
    proof (cases b)
      case True
      with validateNode_ok [OF vn] hb
      have "validateCondition rt (schemaMap schema) t ''<root>'' = Inr []" by auto
      then show ?thesis
        using condition_ok [of rt "schemaMap schema" t _ r] q True x hb by auto
    next
      case False
      with validateNode_ok [OF vn] hb
      have "validateGroup rt (schemaMap schema) t ''<root>'' = Inr []" by auto
      then show ?thesis
        using tree_ok(1) [of "schemaMap schema" t rt] q False x hb by auto
    qed
  qed
  then obtain ps seps where ps: "params r = JArr ps" "ps = concat (map condParams (leaves t))"
    and seps: "length seps = Suc (length (leaves t))" "\<forall>sep \<in> set seps. CHR ''?'' \<notin> set sep"
      "sql r = weave seps (map condSql (leaves t))"
    and g: "\<forall>c \<in> set (leaves t). count_list (condSql c) CHR ''?'' = length (condParams c)"
    unfolding nodeOk_def placed_def by blast
  have "count_list (sql r) CHR ''?'' = sum_list (map (\<lambda>f. count_list f CHR ''?'') (map condSql (leaves t)))"
    using count_weave [of seps "map condSql (leaves t)" "CHR ''?''"] seps by simp
  also have "\<dots> = sum_list (map (\<lambda>c. length (condParams c)) (leaves t))"
    using g by (simp add: comp_def cong: map_cong)
  also have "\<dots> = length ps"
    using ps(2) by (simp add: length_concat comp_def)
  finally have "length ps = count_list (sql r) CHR ''?''" by simp
  with ps seps g show ?thesis by blast
qed

theorem sql_params_follow_placeholders_witness:
  "validate plainRuntime userSchema nestedFilter = Inr []
   \<and> toSqlWhere nestedFilter
       = Inr \<lparr>sql = ''(age > ? AND (role = ? OR isActive = ?))'',
              params = JArr [JNum 30, JStr ''admin'', JBool True]\<rparr>
   \<and> (\<exists>seps. [JNum 30, JStr ''admin'', JBool True] = concat (map condParams (leaves nestedFilter))
         \<and> ''(age > ? AND (role = ? OR isActive = ?))'' = weave seps (map condSql (leaves nestedFilter))
         \<and> length seps = Suc (length (leaves nestedFilter)))"
proof -
  have v: "validate plainRuntime userSchema nestedFilter = Inr []"
    by (simp add: validate_def nestedFilter_def userSchema_def schemaMap_def validateCondition_def
        validateValue_def checkType_def showNat.simps digit_def)
  have s: "\<forall>fs \<in> set userSchema. CHR ''?'' \<notin> set (name fs)"
    by (simp add: userSchema_def)
  have c: "toSqlWhere nestedFilter
       = Inr \<lparr>sql = ''(age > ? AND (role = ? OR isActive = ?))'',
              params = JArr [JNum 30, JStr ''admin'', JBool True]\<rparr>"
    by (simp add: toSqlWhere_def nestedFilter_def conditionToSql_def fragment_def flatParams_def)
  show ?thesis
    using sql_params_follow_placeholders [OF v s c] v c by auto
qed

theorem sql_params_counterexample:
  "toSqlWhere (JObj [(''field'', JStr ''age''), (''operator'', JStr ''between''), (''value'', JArr [JNum 20])])
     = Inr \<lparr>sql = ''age BETWEEN ? AND ?'', params = JArr [JNum 20]\<rparr>
   \<and> count_list ''age BETWEEN ? AND ?'' CHR ''?'' = 2
   \<and> validate plainRuntime
         [\<lparr>name = ''ok?'', type = TBoolean, filterable = True, allowedOperators = None, enumValues = None\<rparr>]
         (JObj [(''field'', JStr ''ok?''), (''operator'', JStr ''eq''), (''value'', JBool True)]) = Inr []
   \<and> toSqlWhere (JObj [(''field'', JStr ''ok?''), (''operator'', JStr ''eq''), (''value'', JBool True)])
     = Inr \<lparr>sql = ''ok? = ?'', params = JArr [JBool True]\<rparr>
   \<and> count_list ''ok? = ?'' CHR ''?'' = 2"
  by (simp add: toSqlWhere_def conditionToSql_def fragment_def validate_def schemaMap_def
      validateCondition_def validateValue_def checkType_def)

text \<open>
  C2. The claim is that a compiled query with both \<^verbatim>\<open>$and\<close> and \<^verbatim>\<open>$or\<close> matches
  only if every sub-query under \<^verbatim>\<open>$and\<close> matches and one under \<^verbatim>\<open>$or\<close> does.
  The evaluator returns as soon as it has seen \<^verbatim>\<open>$and\<close>: its result is that of the
  \<^verbatim>\<open>$and\<close> array alone, whatever stands under \<^verbatim>\<open>$or\<close>. The Group
  \<^verbatim>\<open>{and: [age = 35], or: [role = "manager"]}\<close> passes validation and compiles to a
  query with both keys, which matches Alice (35, admin) although no sub-query under
  \<^verbatim>\<open>$or\<close> matches her; the SQL compiler joins the two parts of the same Group with
  \<^verbatim>\<open>AND\<close>.
\<close>

theorem and_ignores_or:
  "matchesQuery rt user (JObj [(''$and'', JArr qs), (''$or'', JArr qs')]) = everyQuery rt user qs
   \<and> validate rt userSchema ageAndRole = Inr []
   \<and> toMongoQuery ageAndRole
       = Inr (JObj [(''$and'', JArr [JObj [(''age'', JNum 35)]]),
                    (''$or'', JArr [JObj [(''role'', JStr ''manager'')]])])
   \<and> matchesQuery rt alice
         (JObj [(''$and'', JArr [JObj [(''age'', JNum 35)]]),
                (''$or'', JArr [JObj [(''role'', JStr ''manager'')]])]) = Inr True
   \<and> someQuery rt alice [JObj [(''role'', JStr ''manager'')]] = Inr False
   \<and> toSqlWhere ageAndRole
       = Inr \<lparr>sql = ''(age = ? AND role = ?)'', params = JArr [JNum 35, JStr ''manager'']\<rparr>"
  by (simp add: validate_def ageAndRole_def userSchema_def schemaMap_def validateCondition_def
      validateValue_def checkType_def toMongoQuery_def conditionToMongo_def keyed_def alice_def
      toSqlWhere_def conditionToSql_def fragment_def flatParams_def showNat.simps digit_def)

theorem and_ignores_or_witness:
  "toMongoQuery ageAndRole
       = Inr (JObj [(''$and'', JArr [JObj [(''age'', JNum 35)]]),
                    (''$or'', JArr [JObj [(''role'', JStr ''manager'')]])])
   \<and> matchesQuery plainRuntime alice
         (JObj [(''$and'', JArr [JObj [(''age'', JNum 35)]]),
                (''$or'', JArr [JObj [(''role'', JStr ''manager'')]])]) = Inr True
   \<and> someQuery plainRuntime alice [JObj [(''role'', JStr ''manager'')]] = Inr False"
  using and_ignores_or [of plainRuntime alice "[]" "[]"]
  by simp

text \<open>
  C3. The claim is that the compiled \<^verbatim>\<open>is_null\<close> query \<^verbatim>\<open>{field: null}\<close> matches
  a record exactly when the record's value at the field is \<^verbatim>\<open>null\<close>. The compiler
  does give \<^verbatim>\<open>{field: null}\<close>, but the evaluator matches every record against it:
  \<^verbatim>\<open>typeof null\<close> is \<^verbatim>\<open>"object"\<close>, so \<^verbatim>\<open>null\<close> is taken for an operator
  object, one with no operator to fail.
\<close>

theorem is_null_matches_every_record:
  assumes "hasField cond = Inr True"
    and "getProp cond ''field'' = JStr f"
    and "getProp cond ''operator'' = JStr ''is_null''"
  shows "toMongoQuery cond = Inr (JObj [(f, JNull)])
         \<and> matchesQuery rt user (JObj [(f, JNull)]) = Inr True"
  using assms by (cases cond) (auto simp: toMongoQuery_def conditionToMongo_def keyed_def)

theorem is_null_matches_every_record_witness:
  "toMongoQuery (JObj [(''field'', JStr ''name''), (''operator'', JStr ''is_null'')])
     = Inr (JObj [(''name'', JNull)])
   \<and> matchesQuery plainRuntime alice (JObj [(''name'', JNull)]) = Inr True
   \<and> getProp (JObj alice) ''name'' = JStr ''Alice''
   \<and> \<not> strictEq (JStr ''Alice'') JNull"
  using is_null_matches_every_record
    [of "JObj [(''field'', JStr ''name''), (''operator'', JStr ''is_null'')]" "''name''"
        plainRuntime alice]
  by (simp add: alice_def)

text \<open>
  C5, as amended. When the loop over an operator object reaches a key that is none of
  \<^verbatim>\<open>$ne\<close>, \<^verbatim>\<open>$gt\<close>, \<^verbatim>\<open>$lt\<close>, \<^verbatim>\<open>$gte\<close>, \<^verbatim>\<open>$lte\<close>, \<^verbatim>\<open>$in\<close>,
  \<^verbatim>\<open>$regex\<close> and \<^verbatim>\<open>$options\<close>, the evaluator returns false, an ordinary result:
  the record does not match and no error is raised. So a query whose first operator is
  such a key, on a field other than \<^verbatim>\<open>$and\<close> and \<^verbatim>\<open>$or\<close>, matches no record.
\<close>

theorem unknown_operator_is_no_match:
  assumes "op \<notin> {''$ne'', ''$gt'', ''$lt'', ''$gte'', ''$lte'', ''$in'', ''$regex'', ''$options''}"
  shows "matchOps rt v cnd (op # ops) = Inr False
       \<and> (f \<noteq> ''$and'' \<and> f \<noteq> ''$or'' \<longrightarrow>
            matchesQuery rt user (JObj [(f, JObj ((op, x) # rest))]) = Inr False)"
  using assms by auto

theorem unknown_operator_is_no_match_witness:
  "matchOps plainRuntime (JNum 35) (JObj [(''$exists'', JBool True)]) [''$exists''] = Inr False
   \<and> matchesQuery plainRuntime alice (JObj [(''age'', JObj [(''$exists'', JBool True)])])
       = Inr False"
  using unknown_operator_is_no_match
    [of "''$exists''" plainRuntime "JNum 35" "JObj [(''$exists'', JBool True)]" "[]"
        "''age''" alice "JBool True" "[]"]
  by simp

theorem unknown_operator_counterexample:
  "matchesQuery plainRuntime alice (JObj [(''age'', JObj [(''$exists'', JBool True)])]) = Inr False
   \<and> (\<forall>e. matchesQuery plainRuntime alice (JObj [(''age'', JObj [(''$exists'', JBool True)])])
            \<noteq> Inl e)"
  by simp

text \<open>
  C6. For a Condition whose field is a string: when the field is missing from the schema,
  \<^verbatim>\<open>validate\<close> returns exactly the one error that the field is not allowed, and when
  it is there but not filterable, exactly the one error that it is not filterable; no
  operator or value check adds to either. When the field is there and filterable and the
  operator is not among the allowed ones, the result is the operator error followed by
  whatever the value check returns, so both an operator error and a value error are
  reported for \<^verbatim>\<open>{field: "age", operator: "contains", value: "x"}\<close>.
\<close>

theorem condition_checks:
  assumes "hasField cond = Inr True" and "getProp cond ''field'' = JStr f"
  shows \<open>(schemaMap schema f = None \<longrightarrow>
          validate rt schema cond
            = Inr [\<lparr>path = ''<root>'', message = ''Field "'' @ f @ ''" is not allowed for filtering''\<rparr>])
     \<and> (\<forall>fs. schemaMap schema f = Some fs \<and> \<not> filterable fs \<longrightarrow>
          validate rt schema cond
            = Inr [\<lparr>path = ''<root>'', message = ''Field "'' @ f @ ''" is not filterable''\<rparr>])
     \<and> (\<forall>fs op. schemaMap schema f = Some fs \<and> filterable fs
            \<and> getProp cond ''operator'' = JStr op
            \<and> op \<notin> set (case allowedOperators fs of
                             Some ops \<Rightarrow> ops
                           | None \<Rightarrow> defaultOperators (type fs)) \<longrightarrow>
          validate rt schema cond
            = (case validateValue rt cond (type fs) ''<root>'' fs of
                 Inl e \<Rightarrow> Inl e
               | Inr es \<Rightarrow>
                   Inr (\<lparr>path = ''<root>'',
                         message = ''Operator "'' @ op @ ''" is not allowed for field "'' @ f @ ''"''\<rparr>
                        # es)))
     \<and> validate rt userSchema (mkCond ''age'' ''contains'' (JStr ''x''))
        = Inr [\<lparr>path = ''<root>'',
                 message = ''Operator "contains" is not allowed for field "age"''\<rparr>,
               \<lparr>path = ''<root>.value'', message = ''must be a number''\<rparr>]\<close>
proof -
  have t: "truthy cond" using assms(1) by (cases cond) auto
  have v: "validate rt schema cond = validateCondition rt (schemaMap schema) cond ''<root>''"
    using t assms(1) by (simp add: validate_def)
  have ex: \<open>validate rt userSchema (mkCond ''age'' ''contains'' (JStr ''x''))
        = Inr [\<lparr>path = ''<root>'',
                 message = ''Operator "contains" is not allowed for field "age"''\<rparr>,
               \<lparr>path = ''<root>.value'', message = ''must be a number''\<rparr>]\<close>
    by (simp add: validate_def mkCond_def userSchema_def schemaMap_def validateCondition_def
        validateValue_def checkType_def)
  show ?thesis
    unfolding v using assms(2) ex
    by (auto simp: validateCondition_def split: sum.splits)
qed

theorem condition_checks_witness:
  \<open>validate plainRuntime userSchema (mkCond ''password'' ''eq'' (JStr ''secret''))
     = Inr [\<lparr>path = ''<root>'', message = ''Field "password" is not allowed for filtering''\<rparr>]
   \<and> validate plainRuntime userSchema (mkCond ''createdAt'' ''eq'' (JStr ''2023-01-01''))
     = Inr [\<lparr>path = ''<root>'', message = ''Field "createdAt" is not filterable''\<rparr>]
   \<and> validate plainRuntime userSchema (mkCond ''age'' ''contains'' (JNum 30))
     = Inr [\<lparr>path = ''<root>'',
              message = ''Operator "contains" is not allowed for field "age"''\<rparr>]
   \<and> validate plainRuntime userSchema (mkCond ''age'' ''contains'' (JStr ''x''))
     = Inr [\<lparr>path = ''<root>'',
              message = ''Operator "contains" is not allowed for field "age"''\<rparr>,
            \<lparr>path = ''<root>.value'', message = ''must be a number''\<rparr>]\<close>
proof -
  have h: "hasField (mkCond f op v) = Inr True" "getProp (mkCond f op v) ''field'' = JStr f"
    "getProp (mkCond f op v) ''operator'' = JStr op" for f op v
    by (simp_all add: mkCond_def)
  have m: "schemaMap userSchema ''password'' = None"
    "schemaMap userSchema ''createdAt''
       = Some \<lparr>name = ''createdAt'', type = TDate, filterable = False, allowedOperators = None,
               enumValues = None\<rparr>"
    "schemaMap userSchema ''age''
       = Some \<lparr>name = ''age'', type = TNumber, filterable = True, allowedOperators = None,
               enumValues = None\<rparr>"
    by (simp_all add: userSchema_def schemaMap_def)
  have v: "validateValue plainRuntime (mkCond ''age'' ''contains'' (JNum 30)) TNumber ''<root>''
             \<lparr>name = ''age'', type = TNumber, filterable = True, allowedOperators = None,
               enumValues = None\<rparr> = Inr []"
    by (simp add: mkCond_def validateValue_def checkType_def)
  have "validate plainRuntime userSchema (mkCond ''password'' ''eq'' (JStr ''secret''))
     = Inr [\<lparr>path = ''<root>'', message = ''Field '' @ [CHR 0x22] @ ''password'' @ [CHR 0x22]
              @ '' is not allowed for filtering''\<rparr>]"
    using condition_checks [where cond = "mkCond ''password'' ''eq'' (JStr ''secret'')" and f = "''password''"
        and rt = plainRuntime and schema = userSchema] h m(1)
    by simp
  moreover have "validate plainRuntime userSchema (mkCond ''createdAt'' ''eq'' (JStr ''2023-01-01''))
     = Inr [\<lparr>path = ''<root>'', message = ''Field '' @ [CHR 0x22] @ ''createdAt'' @ [CHR 0x22]
              @ '' is not filterable''\<rparr>]"
    using condition_checks [where cond = "mkCond ''createdAt'' ''eq'' (JStr ''2023-01-01'')" and f = "''createdAt''"
        and rt = plainRuntime and schema = userSchema] h m(2)
    by simp
  moreover have "validate plainRuntime userSchema (mkCond ''age'' ''contains'' (JNum 30))
     = Inr [\<lparr>path = ''<root>'', message = ''Operator '' @ [CHR 0x22] @ ''contains'' @ [CHR 0x22]
              @ '' is not allowed for field '' @ [CHR 0x22] @ ''age'' @ [CHR 0x22]\<rparr>]"
    using condition_checks [where cond = "mkCond ''age'' ''contains'' (JNum 30)" and f = "''age''"
        and rt = plainRuntime and schema = userSchema] h m(3) v
    by simp
  moreover have \<open>validate plainRuntime userSchema (mkCond ''age'' ''contains'' (JStr ''x''))
     = Inr [\<lparr>path = ''<root>'',
              message = ''Operator "contains" is not allowed for field "age"''\<rparr>,
            \<lparr>path = ''<root>.value'', message = ''must be a number''\<rparr>]\<close>
    using condition_checks [where cond = "mkCond ''age'' ''contains'' (JNum 30)" and f = "''age''"
        and rt = plainRuntime and schema = userSchema] h
    by simp
  ultimately show ?thesis by simp
qed

text \<open>
  C9. \<^verbatim>\<open>buildQuery\<close> on a name that is not in the registry fails with the error
  \<^verbatim>\<open>Query builder "<name>" is not registered\<close> and returns no compiled
  representation; on a registered name it returns what that builder returns on the
  filter. In the repository's registry \<^verbatim>\<open>mongo\<close> and \<^verbatim>\<open>sql\<close> are registered,
  and every other name fails.
\<close>

theorem buildQuery_registry:
  \<open>(reg nm = None \<longrightarrow>
      buildQuery reg nm flt = Inl (Error (''Query builder "'' @ nm @ ''" is not registered'')))
   \<and> (\<forall>b. reg nm = Some b \<longrightarrow> buildQuery reg nm flt = b flt)
   \<and> buildQuery (registerBuilder reg nm b') nm flt = b' flt
   \<and> buildQuery repoBuilders ''mongo'' flt = mongoBuilder flt
   \<and> buildQuery repoBuilders ''sql'' flt = sqlBuilder flt
   \<and> (nm \<noteq> ''mongo'' \<and> nm \<noteq> ''sql'' \<longrightarrow>
        buildQuery repoBuilders nm flt
          = Inl (Error (''Query builder "'' @ nm @ ''" is not registered'')))\<close>
  by (auto simp: buildQuery_def registerBuilder_def repoBuilders_def)

theorem buildQuery_registry_witness:
  \<open>buildQuery repoBuilders ''prisma'' JNull
     = Inl (Error ''Query builder "prisma" is not registered'')
   \<and> buildQuery repoBuilders ''sql'' JNull = Inr (SqlQuery \<lparr>sql = ''1=1'', params = JArr []\<rparr>)
   \<and> buildQuery repoBuilders ''mongo'' JNull = Inr (MongoQuery (JObj []))\<close>
  using buildQuery_registry [of repoBuilders "''prisma''" JNull sqlBuilder]
    buildQuery_registry [of repoBuilders "''sql''" JNull sqlBuilder]
  by (simp add: repoBuilders_def registerBuilder_def sqlBuilder_def mongoBuilder_def
      toSqlWhere_def toMongoQuery_def)

text \<open>
  C10, as amended. For every field that the schema holds as filterable and whose allowed
  operators (the descriptor's \<^verbatim>\<open>allowedOperators\<close> when it declares them, the defaults
  of its type otherwise) include \<^verbatim>\<open>in\<close>, the Condition
  \<^verbatim>\<open>{field, operator: "in", value: []}\<close> passes validation with no error, the SQL
  compiler gives \<^verbatim>\<open>field IN ()\<close> with no parameter, the Mongo compiler gives
  \<^verbatim>\<open>{field: {$in: []}}\<close>, and the evaluator returns true for no record against that
  query: it returns false, unless the field is named \<^verbatim>\<open>$and\<close> or \<^verbatim>\<open>$or\<close>.
\<close>

theorem in_empty_array:
  assumes "schemaMap schema f = Some fs" and "filterable fs"
    and "''in'' \<in> set (case allowedOperators fs of
                         Some ops \<Rightarrow> ops
                       | None \<Rightarrow> defaultOperators (type fs))"
  shows "validate rt schema (inEmpty f) = Inr []
     \<and> toSqlWhere (inEmpty f) = Inr \<lparr>sql = f @ '' IN ()'', params = JArr []\<rparr>
     \<and> toMongoQuery (inEmpty f) = Inr (JObj [(f, JObj [(''$in'', JArr [])])])
     \<and> matchesQuery rt user (JObj [(f, JObj [(''$in'', JArr [])])]) \<noteq> Inr True
     \<and> (f \<noteq> ''$and'' \<and> f \<noteq> ''$or'' \<longrightarrow>
          matchesQuery rt user (JObj [(f, JObj [(''$in'', JArr [])])]) = Inr False)"
  using assms
  by (auto simp: validate_def inEmpty_def validateCondition_def validateValue_def
      toSqlWhere_def conditionToSql_def fragment_def toMongoQuery_def conditionToMongo_def
      keyed_def)

theorem in_empty_array_witness:
  "validate plainRuntime userSchema (inEmpty ''role'') = Inr []
     \<and> toSqlWhere (inEmpty ''role'') = Inr \<lparr>sql = ''role IN ()'', params = JArr []\<rparr>
     \<and> toMongoQuery (inEmpty ''role'') = Inr (JObj [(''role'', JObj [(''$in'', JArr [])])])
     \<and> matchesQuery plainRuntime alice (JObj [(''role'', JObj [(''$in'', JArr [])])]) = Inr False"
  using in_empty_array [of userSchema "''role''"
      "\<lparr>name = ''role'', type = TEnum, filterable = True, allowedOperators = None,
        enumValues = Some [''admin'', ''user'', ''manager'']\<rparr>" plainRuntime alice]
  by (simp add: userSchema_def schemaMap_def)

theorem in_empty_array_counterexample:
  \<open>''in'' \<in> set (defaultOperators TString)
   \<and> validate plainRuntime
         [\<lparr>name = ''name'', type = TString, filterable = True, allowedOperators = Some [''eq''],
           enumValues = None\<rparr>]
         (inEmpty ''name'')
       = Inr [\<lparr>path = ''<root>'', message = ''Operator "in" is not allowed for field "name"''\<rparr>]\<close>
  by (simp add: validate_def inEmpty_def schemaMap_def validateCondition_def validateValue_def)

end
